theory Spec2Isabelle
  imports Main "HOL-Library.Word"
begin

section \<open>Positions, regions, errors\<close>

text \<open>
  \<^verbatim>\<open>token.Pos\<close> is a Go \<^verbatim>\<open>int\<close>: a signed 64-bit machine integer on the 64-bit
  platforms the tool is built for. Addition wraps around; an order on positions is the
  signed one (\<open>sint\<close>).
\<close>

type_synonym token_Pos = "64 word"

text \<open>
  Modelled from the spec: \<^verbatim>\<open>Region\<close> is declared elsewhere in package engine. A
  byte range over the source text; this file uses its two fields \<^verbatim>\<open>Pos\<close> and
  \<^verbatim>\<open>End\<close>, both of type \<^verbatim>\<open>token.Pos\<close>.
\<close>

record Region =
  Pos :: token_Pos
  End :: token_Pos

text \<open>
  A Go panic is a value of the model: every function that can panic returns
  \<open>panic + 'a\<close>, with \<open>Inl\<close> for the panic.
\<close>

datatype panic = Panic string

type_synonym 'a outcome = "panic + 'a"

text \<open>A Go \<^verbatim>\<open>error\<close> value, as made by \<^verbatim>\<open>errors.New\<close>.\<close>

datatype goerror = errors_New string

section \<open>The part of package reflect that the code uses\<close>

text \<open>
  A \<^verbatim>\<open>reflect.Type\<close>. Named integer types (\<^verbatim>\<open>token.Pos\<close>), interface types
  (\<^verbatim>\<open>ast.Stmt\<close>, \<^verbatim>\<open>ast.Expr\<close>), slices, pointers, and named struct types with their
  fields in declaration order.
\<close>

datatype rtype =
    IntT string
  | IfaceT string
  | SliceT rtype
  | PtrT rtype
  | StructT string "(string \<times> rtype) list"

datatype Kind = reflect_Int | reflect_Interface | reflect_Slice | reflect_Ptr | reflect_Struct

fun Type_Kind :: "rtype \<Rightarrow> Kind" where
  "Type_Kind (IntT n) = reflect_Int"
| "Type_Kind (IfaceT n) = reflect_Interface"
| "Type_Kind (SliceT t) = reflect_Slice"
| "Type_Kind (PtrT t) = reflect_Ptr"
| "Type_Kind (StructT n fs) = reflect_Struct"

fun Type_Elem :: "rtype \<Rightarrow> rtype outcome" where
  "Type_Elem (PtrT t) = Inr t"
| "Type_Elem (SliceT t) = Inr t"
| "Type_Elem t = Inl (Panic ''reflect: Elem of invalid type'')"

fun Type_NumField :: "rtype \<Rightarrow> nat outcome" where
  "Type_NumField (StructT n fs) = Inr (length fs)"
| "Type_NumField t = Inl (Panic ''reflect: NumField of non-struct type'')"

fun Type_Field :: "rtype \<Rightarrow> nat \<Rightarrow> (string \<times> rtype) outcome" where
  "Type_Field (StructT n fs) i =
     (if i < length fs then Inr (fs ! i)
      else Inl (Panic ''reflect: Field index out of bounds''))"
| "Type_Field t i = Inl (Panic ''reflect: Field of non-struct type'')"

text \<open>
  Go values as they lie in memory. \<open>NilV\<close> is the nil pointer, the nil slice and the
  nil interface; \<open>PtrV a p\<close> points to the variable at address \<open>a\<close>, or inside it
  along the field path \<open>p\<close>; \<open>IfaceV t v\<close> is an interface holding \<open>v\<close> of
  dynamic type \<open>t\<close>.
\<close>

datatype goval =
    IntV "64 word"
  | NilV
  | PtrV nat "nat list"
  | SliceV "goval list"
  | IfaceV rtype goval
  | StructV "goval list"

text \<open>
  The memory: a list of allocated variables, each with its type; an address is an
  index, and allocation appends, so a new address is never one in use.
\<close>

type_synonym heap = "(rtype \<times> goval) list"

text \<open>
  A \<^verbatim>\<open>reflect.Value\<close>: the zero Value (\<open>Invalid\<close>), a value that is not
  addressable (\<open>Imm\<close>, as \<^verbatim>\<open>reflect.ValueOf\<close> returns), or an addressable one
  (\<open>Loc a p\<close>): the variable at address \<open>a\<close>, or the field of it at path \<open>p\<close>.
  An addressable Value is a reference: reading it reads the memory as it is then.
\<close>

datatype rvalue =
    Invalid
  | Imm rtype goval
  | Loc nat "nat list"

fun type_at :: "rtype \<Rightarrow> nat list \<Rightarrow> rtype option" where
  "type_at t [] = Some t"
| "type_at (StructT n fs) (i # p) =
     (if i < length fs then type_at (snd (fs ! i)) p else None)"
| "type_at t (i # p) = None"

fun value_at :: "goval \<Rightarrow> nat list \<Rightarrow> goval option" where
  "value_at v [] = Some v"
| "value_at (StructV vs) (i # p) =
     (if i < length vs then value_at (vs ! i) p else None)"
| "value_at v (i # p) = None"

fun update_at :: "goval \<Rightarrow> nat list \<Rightarrow> goval \<Rightarrow> goval option" where
  "update_at v [] x = Some x"
| "update_at (StructV vs) (i # p) x =
     (if i < length vs
      then (case update_at (vs ! i) p x of
              None \<Rightarrow> None
            | Some w \<Rightarrow> Some (StructV (vs[i := w])))
      else None)"
| "update_at v (i # p) x = None"

text \<open>
  Go is memory safe: an address always names an allocated variable, and the value
  there has the shape of its type. The model is total, so a reference outside the
  memory gets a panic of its own; no run of the Go program reaches it.
\<close>

definition bad_memory :: "'a outcome" where
  "bad_memory = Inl (Panic ''model: reference outside the memory'')"

fun Value_Type :: "heap \<Rightarrow> rvalue \<Rightarrow> rtype outcome" where
  "Value_Type h Invalid = Inl (Panic ''reflect: call of reflect.Value.Type on zero Value'')"
| "Value_Type h (Imm t x) = Inr t"
| "Value_Type h (Loc a p) =
     (if a < length h
      then (case type_at (fst (h ! a)) p of None \<Rightarrow> bad_memory | Some t \<Rightarrow> Inr t)
      else bad_memory)"

text \<open>The Go value a valid Value holds now.\<close>

fun Value_read :: "heap \<Rightarrow> rvalue \<Rightarrow> goval outcome" where
  "Value_read h Invalid = Inl (Panic ''reflect: call on zero Value'')"
| "Value_read h (Imm t x) = Inr x"
| "Value_read h (Loc a p) =
     (if a < length h
      then (case value_at (snd (h ! a)) p of None \<Rightarrow> bad_memory | Some x \<Rightarrow> Inr x)
      else bad_memory)"

text \<open>
  \<^verbatim>\<open>Value.Elem\<close>: of a pointer, the variable it points to, addressable, or the zero
  Value for nil; of an interface, the value it holds. Any other kind panics.
\<close>

definition Value_Elem :: "heap \<Rightarrow> rvalue \<Rightarrow> rvalue outcome" where
  "Value_Elem h v =
     (case Value_Type h v of
        Inl e \<Rightarrow> Inl e
      | Inr t \<Rightarrow>
          if Type_Kind t = reflect_Ptr \<or> Type_Kind t = reflect_Interface then
            (case Value_read h v of
               Inl e \<Rightarrow> Inl e
             | Inr NilV \<Rightarrow> Inr Invalid
             | Inr (PtrV a p) \<Rightarrow> Inr (Loc a p)
             | Inr (IfaceV t' x) \<Rightarrow> Inr (Imm t' x)
             | Inr _ \<Rightarrow> bad_memory)
          else Inl (Panic ''reflect: call of reflect.Value.Elem on a Value of another kind''))"

text \<open>
  \<^verbatim>\<open>Value.Field(i)\<close>: panics on the zero Value, on a kind other than Struct and on
  an index out of range; the field of an addressable struct is addressable.
\<close>

definition Value_Field :: "heap \<Rightarrow> rvalue \<Rightarrow> nat \<Rightarrow> rvalue outcome" where
  "Value_Field h v i =
     (case v of
        Invalid \<Rightarrow> Inl (Panic ''reflect: call of reflect.Value.Field on zero Value'')
      | _ \<Rightarrow>
        (case Value_Type h v of
           Inl e \<Rightarrow> Inl e
         | Inr (StructT n fs) \<Rightarrow>
             if i < length fs then
               (case v of
                  Loc a p \<Rightarrow> Inr (Loc a (p @ [i]))
                | Imm t x \<Rightarrow>
                    (case value_at x [i] of
                       None \<Rightarrow> bad_memory
                     | Some y \<Rightarrow> Inr (Imm (snd (fs ! i)) y))
                | Invalid \<Rightarrow> bad_memory)
             else Inl (Panic ''reflect: Field index out of range'')
         | Inr _ \<Rightarrow> Inl (Panic ''reflect: call of reflect.Value.Field on a non-struct Value'')))"

text \<open>
  \<^verbatim>\<open>Value.FieldByName(name)\<close>: panics unless the kind is Struct; the zero Value when
  the struct has no field of that name.
\<close>

fun field_index :: "string \<Rightarrow> (string \<times> rtype) list \<Rightarrow> nat option" where
  "field_index name [] = None"
| "field_index name (f # fs) =
     (if fst f = name then Some 0 else map_option Suc (field_index name fs))"

definition Value_FieldByName :: "heap \<Rightarrow> rvalue \<Rightarrow> string \<Rightarrow> rvalue outcome" where
  "Value_FieldByName h v name =
     (case v of
        Invalid \<Rightarrow> Inl (Panic ''reflect: call of reflect.Value.FieldByName on zero Value'')
      | _ \<Rightarrow>
        (case Value_Type h v of
           Inl e \<Rightarrow> Inl e
         | Inr (StructT n fs) \<Rightarrow>
             (case field_index name fs of
                None \<Rightarrow> Inr Invalid
              | Some i \<Rightarrow> Value_Field h v i)
         | Inr _ \<Rightarrow>
             Inl (Panic ''reflect: call of reflect.Value.FieldByName on a non-struct Value'')))"

text \<open>\<^verbatim>\<open>Value.Int\<close>: panics unless the kind is an integer kind.\<close>

definition Value_Int :: "heap \<Rightarrow> rvalue \<Rightarrow> 64 word outcome" where
  "Value_Int h v =
     (case v of
        Invalid \<Rightarrow> Inl (Panic ''reflect: call of reflect.Value.Int on zero Value'')
      | _ \<Rightarrow>
        (case Value_Type h v of
           Inl e \<Rightarrow> Inl e
         | Inr (IntT n) \<Rightarrow>
             (case Value_read h v of
                Inl e \<Rightarrow> Inl e
              | Inr (IntV w) \<Rightarrow> Inr w
              | Inr _ \<Rightarrow> bad_memory)
         | Inr _ \<Rightarrow> Inl (Panic ''reflect: call of reflect.Value.Int on a non-integer Value'')))"

text \<open>
  \<^verbatim>\<open>Value.Set(x)\<close>: panics unless the receiver is addressable, \<open>x\<close> is valid and the
  type of \<open>x\<close> is assignable to the receiver's. No type of this model is a named
  slice or pointer type, so assignability to a type that is not an interface is
  identity of the types; to an interface type the model allows the identical type
  only. The value of \<open>x\<close> is read when \<open>Set\<close> runs and copied into the memory.
\<close>

definition Value_Set :: "heap \<Rightarrow> rvalue \<Rightarrow> rvalue \<Rightarrow> heap outcome" where
  "Value_Set h v x =
     (case v of
        Loc a p \<Rightarrow>
          (case Value_Type h v of
             Inl e \<Rightarrow> Inl e
           | Inr t \<Rightarrow>
             (case x of
                Invalid \<Rightarrow> Inl (Panic ''reflect: call of reflect.Value.Set on zero Value'')
              | _ \<Rightarrow>
                (case Value_Type h x of
                   Inl e \<Rightarrow> Inl e
                 | Inr tx \<Rightarrow>
                     if tx = t then
                       (case Value_read h x of
                          Inl e \<Rightarrow> Inl e
                        | Inr y \<Rightarrow>
                            (case update_at (snd (h ! a)) p y of
                               None \<Rightarrow> bad_memory
                             | Some w \<Rightarrow> Inr (h[a := (fst (h ! a), w)])))
                     else Inl (Panic ''reflect.Set: value is not assignable to type''))))
      | _ \<Rightarrow> Inl (Panic ''reflect: reflect.Value.Set using unaddressable value''))"

text \<open>\<^verbatim>\<open>Value.Addr\<close>: a pointer to an addressable Value; panics on any other.\<close>

definition Value_Addr :: "heap \<Rightarrow> rvalue \<Rightarrow> rvalue outcome" where
  "Value_Addr h v =
     (case v of
        Loc a p \<Rightarrow>
          (case Value_Type h v of
             Inl e \<Rightarrow> Inl e
           | Inr t \<Rightarrow> Inr (Imm (PtrT t) (PtrV a p)))
      | _ \<Rightarrow> Inl (Panic ''reflect.Value.Addr of unaddressable value''))"

text \<open>The zero value of a type, and \<^verbatim>\<open>reflect.New\<close>, which allocates one.\<close>

fun zero_value :: "rtype \<Rightarrow> goval" where
  "zero_value (IntT n) = IntV 0"
| "zero_value (IfaceT n) = NilV"
| "zero_value (SliceT t) = NilV"
| "zero_value (PtrT t) = NilV"
| "zero_value (StructT n fs) = StructV (map (\<lambda>f. zero_value (snd f)) fs)"

definition reflect_New :: "heap \<Rightarrow> rtype \<Rightarrow> heap \<times> rvalue" where
  "reflect_New h t = (h @ [(t, zero_value t)], Imm (PtrT t) (PtrV (length h) []))"

section \<open>The syntax-tree types and the collaborators\<close>

text \<open>
  Package goast is not part of this file: \<^verbatim>\<open>goast.BlockStmtType\<close>,
  \<^verbatim>\<open>goast.CaseClauseType\<close> and \<^verbatim>\<open>goast.CommClauseType\<close> are the types of
  \<^verbatim>\<open>ast.BlockStmt\<close>, \<^verbatim>\<open>ast.CaseClause\<close> and \<^verbatim>\<open>ast.CommClause\<close> of the standard
  package \<^verbatim>\<open>go/ast\<close>. Their fields, in declaration order, as \<^verbatim>\<open>go/ast\<close> declares them.
\<close>

definition token_PosT :: rtype where
  "token_PosT = IntT ''token.Pos''"

definition StmtT :: rtype where
  "StmtT = IfaceT ''ast.Stmt''"

definition ExprT :: rtype where
  "ExprT = IfaceT ''ast.Expr''"

definition BlockStmtType :: rtype where
  "BlockStmtType = StructT ''ast.BlockStmt''
     [(''Lbrace'', token_PosT), (''List'', SliceT StmtT), (''Rbrace'', token_PosT)]"

definition CaseClauseType :: rtype where
  "CaseClauseType = StructT ''ast.CaseClause''
     [(''Case'', token_PosT), (''List'', SliceT ExprT), (''Colon'', token_PosT),
      (''Body'', SliceT StmtT)]"

definition CommClauseType :: rtype where
  "CommClauseType = StructT ''ast.CommClause''
     [(''Case'', token_PosT), (''Comm'', StmtT), (''Colon'', token_PosT),
      (''Body'', SliceT StmtT)]"

text \<open>\<^verbatim>\<open>stmtListField\<close> and \<^verbatim>\<open>stmtListData\<close>, as declared.\<close>

record stmtListField =
  FieldIdx :: nat
  Value :: rvalue

record stmtListData =
  Type :: rtype
  StmtFieldIdx :: nat
  OtherFields :: "stmtListField list"
  UnchangedRegion :: Region

text \<open>
  Modelled from the spec: package data (\<^verbatim>\<open>data.Data\<close>, \<^verbatim>\<open>data.WithValue\<close>,
  \<^verbatim>\<open>data.Lookup\<close>) is not part of this file. The binding context is an immutable
  mapping from opaque keys to values, extended by a copy-on-extend operation and
  queried by a typed lookup that answers "not found" rather than raising an error.
  Here: an association list, the newest binding first. \<open>stmtListKey\<close> is the private
  key of this file; every other key is a collaborator's.
\<close>

datatype key = stmtListKey | OtherKey string

datatype dvalue = StmtListData stmtListData | OtherValue rvalue

type_synonym Data = "(key \<times> dvalue) list"

definition WithValue :: "Data \<Rightarrow> key \<Rightarrow> dvalue \<Rightarrow> Data" where
  "WithValue d k x = (k, x) # d"

text \<open>\<^verbatim>\<open>data.Lookup(d, k, &sd)\<close> with \<open>sd\<close> a \<^verbatim>\<open>stmtListData\<close>.\<close>

definition Lookup :: "Data \<Rightarrow> key \<Rightarrow> stmtListData option" where
  "Lookup d k =
     (case map_of d k of
        Some (StmtListData sd) \<Rightarrow> Some sd
      | _ \<Rightarrow> None)"

text \<open>
  Modelled from the spec: the change ledger (\<^verbatim>\<open>Changelog\<close>) is declared elsewhere
  in package engine. An append-only recorder of byte ranges, mutated through its
  methods; this file calls \<^verbatim>\<open>Unchanged(pos, end)\<close> only. Its state is the sequence
  of spans recorded so far, the newest last.
\<close>

type_synonym Changelog = "(token_Pos \<times> token_Pos) list"

definition Unchanged :: "Changelog \<Rightarrow> token_Pos \<Rightarrow> token_Pos \<Rightarrow> Changelog" where
  "Unchanged cl pos e = cl @ [(pos, e)]"

text \<open>
  Modelled from the spec: the interfaces \<^verbatim>\<open>Matcher\<close> and \<^verbatim>\<open>Replacer\<close> are
  declared elsewhere in package engine, with the one method each that this file
  implements and calls. A matcher reads the memory; a replacer may allocate in it
  and record in the ledger, so it returns both with its two Go results. Either may
  panic.
\<close>

type_synonym Matcher = "heap \<Rightarrow> rvalue \<Rightarrow> Data \<Rightarrow> Region \<Rightarrow> (Data \<times> bool) outcome"

type_synonym Replacer =
  "heap \<Rightarrow> Data \<Rightarrow> Changelog \<Rightarrow> token_Pos \<Rightarrow>
     (heap \<times> Changelog \<times> rvalue \<times> goerror option) outcome"

section \<open>The container matcher\<close>

text \<open>
  The loop of \<^verbatim>\<open>Match\<close> over the fields of \<open>t\<close>: from index \<open>i\<close> on, with the
  other fields and the statement field found so far.
\<close>

function fields_loop ::
  "heap \<Rightarrow> rtype \<Rightarrow> rvalue \<Rightarrow> string \<Rightarrow> nat \<Rightarrow> stmtListField list \<Rightarrow> stmtListField \<Rightarrow>
     (stmtListField list \<times> stmtListField) outcome" where
  "fields_loop h t v stmtField i fields' stmtsField =
     (case Type_NumField t of
        Inl e \<Rightarrow> Inl e
      | Inr n \<Rightarrow>
          if i < n then
            (case Value_Field h v i of
               Inl e \<Rightarrow> Inl e
             | Inr x \<Rightarrow>
                 (case Type_Field t i of
                    Inl e \<Rightarrow> Inl e
                  | Inr sf \<Rightarrow>
                      if fst sf = stmtField
                      then fields_loop h t v stmtField (i + 1) fields'
                             \<lparr>FieldIdx = i, Value = x\<rparr>
                      else fields_loop h t v stmtField (i + 1)
                             (fields' @ [\<lparr>FieldIdx = i, Value = x\<rparr>]) stmtsField))
          else Inr (fields', stmtsField))"
  by pat_completeness auto
termination
  by (relation "measure (\<lambda>(h, t, v, s, i, fs, sf).
        (case Type_NumField t of Inl e \<Rightarrow> 0 | Inr n \<Rightarrow> n - i))") auto

declare fields_loop.simps [simp del]

record stmtSliceContainerMatcher =
  Stmts :: Matcher

definition Match ::
  "stmtSliceContainerMatcher \<Rightarrow> heap \<Rightarrow> rvalue \<Rightarrow> Data \<Rightarrow> Region \<Rightarrow> (Data \<times> bool) outcome" where
  "Match m h v d r =
     (case Value_Type h v of
        Inl e \<Rightarrow> Inl e
      | Inr t \<Rightarrow>
          if Type_Kind t \<noteq> reflect_Ptr then Inr (d, False)
          else
            (case Value_Elem h v of
               Inl e \<Rightarrow> Inl e
             | Inr v' \<Rightarrow>
               (case Type_Elem t of
                  Inl e \<Rightarrow> Inl e
                | Inr t' \<Rightarrow>
                  (case (if t' = BlockStmtType then Some (''List'', Inr (Pos r))
                         else if t' = CaseClauseType \<or> t' = CommClauseType
                         then Some (''Body'',
                                (case Value_FieldByName h v' ''Colon'' of
                                   Inl e \<Rightarrow> Inl e
                                 | Inr c \<Rightarrow> Value_Int h c))
                         else None) of
                     None \<Rightarrow> Inr (d, False)
                   | Some (stmtField, Inl e) \<Rightarrow> Inl e
                   | Some (stmtField, Inr stmtPreludeEnd) \<Rightarrow>
                       (case fields_loop h t' v' stmtField 0 []
                               \<lparr>FieldIdx = 0, Value = Invalid\<rparr> of
                          Inl e \<Rightarrow> Inl e
                        | Inr (fields', stmtsField) \<Rightarrow>
                            (let r' = r\<lparr>Pos := stmtPreludeEnd + 1\<rparr>
                             in Stmts m h (Value stmtsField)
                                  (WithValue d stmtListKey
                                     (StmtListData
                                        \<lparr>Type = t',
                                         StmtFieldIdx = FieldIdx stmtsField,
                                         OtherFields = fields',
                                         UnchangedRegion =
                                           \<lparr>Pos = Pos r', End = stmtPreludeEnd\<rparr>\<rparr>))
                                  r'))))))"

section \<open>The container replacer\<close>

text \<open>The loop of \<^verbatim>\<open>Replace\<close> over \<^verbatim>\<open>sd.OtherFields\<close>.\<close>

fun set_fields :: "heap \<Rightarrow> rvalue \<Rightarrow> stmtListField list \<Rightarrow> heap outcome" where
  "set_fields h node [] = Inr h"
| "set_fields h node (f # fs) =
     (case Value_Field h node (FieldIdx f) of
        Inl e \<Rightarrow> Inl e
      | Inr x \<Rightarrow>
          (case Value_Set h x (Value f) of
             Inl e \<Rightarrow> Inl e
           | Inr h' \<Rightarrow> set_fields h' node fs))"

record stmtSliceContainerReplacer =
  Stmts :: Replacer

text \<open>
  \<^verbatim>\<open>Replace\<close> returns the memory and the ledger as it leaves them, and its two Go
  results: the Value (the zero Value with an error) and the error, if any. The
  parameter \<open>pos\<close> is not used, as in the source.
\<close>

definition Replace ::
  "stmtSliceContainerReplacer \<Rightarrow> heap \<Rightarrow> Data \<Rightarrow> Changelog \<Rightarrow> token_Pos \<Rightarrow>
     (heap \<times> Changelog \<times> rvalue \<times> goerror option) outcome" where
  "Replace r h d cl pos =
     (case Lookup d stmtListKey of
        None \<Rightarrow> Inr (h, cl, Invalid, Some (errors_New ''no statement matches found''))
      | Some sd \<Rightarrow>
          (case reflect_New h (Type sd) of (h1, p) \<Rightarrow>
             (case Value_Elem h1 p of
                Inl e \<Rightarrow> Inl e
              | Inr node \<Rightarrow>
                  (case set_fields h1 node (OtherFields sd) of
                     Inl e \<Rightarrow> Inl e
                   | Inr h2 \<Rightarrow>
                       (case stmtSliceContainerReplacer.Stmts r h2 d cl
                               (End (UnchangedRegion sd)) of
                          Inl e \<Rightarrow> Inl e
                        | Inr (h3, cl3, stmts, Some err) \<Rightarrow> Inr (h3, cl3, Invalid, Some err)
                        | Inr (h3, cl3, stmts, None) \<Rightarrow>
                            (case Value_Field h3 node (StmtFieldIdx sd) of
                               Inl e \<Rightarrow> Inl e
                             | Inr x \<Rightarrow>
                                 (case Value_Set h3 x stmts of
                                    Inl e \<Rightarrow> Inl e
                                  | Inr h4 \<Rightarrow>
                                      (case Value_Addr h4 node of
                                         Inl e \<Rightarrow> Inl e
                                       | Inr res \<Rightarrow>
                                           Inr (h4,
                                                Unchanged cl3 (Pos (UnchangedRegion sd))
                                                  (End (UnchangedRegion sd)),
                                                res, None)))))))))"

section \<open>Compiling a statement-list pattern\<close>

text \<open>
  Pattern statements: \<^verbatim>\<open>dotsStmt(pos)\<close> builds
  \<^verbatim>\<open>&ast.ExprStmt{X: &pgo.Dots{Dots: pos}}\<close>; every other statement or expression
  of a patch is opaque here.
\<close>

datatype expr = Dots token_Pos | OtherExpr string

datatype stmt = ExprStmt expr | OtherStmt string

definition dotsStmt :: "token_Pos \<Rightarrow> stmt" where
  "dotsStmt pos = ExprStmt (Dots pos)"

record StmtList =
  List :: "stmt list"

record matcherCompiler =
  patchStart :: token_Pos
  patchEnd :: token_Pos

record replacerCompiler =
  patchStart :: token_Pos
  patchEnd :: token_Pos

text \<open>
  The local \<^verbatim>\<open>list\<close> of \<^verbatim>\<open>compilePGoStmtList\<close> when it is handed to
  \<^verbatim>\<open>c.compile\<close>, in the matcher compiler and in the replacer compiler.
\<close>

definition matcher_list :: "matcherCompiler \<Rightarrow> StmtList \<Rightarrow> stmt list" where
  "matcher_list c slist =
     (if length (List slist) > 0
      then ([] @ [dotsStmt (matcherCompiler.patchStart c)]) @ List slist
             @ [dotsStmt (matcherCompiler.patchEnd c)]
      else [])"

definition replacer_list :: "replacerCompiler \<Rightarrow> StmtList \<Rightarrow> stmt list" where
  "replacer_list c slist =
     (if length (List slist) > 0
      then ([] @ [dotsStmt (replacerCompiler.patchStart c)]) @ List slist
             @ [dotsStmt (replacerCompiler.patchEnd c)]
      else [])"

text \<open>
  \<^verbatim>\<open>c.compile\<close> is the generic pattern compiler, not part of this file: a
  parameter, applied to the list (\<^verbatim>\<open>reflect.ValueOf(list)\<close>).
\<close>

definition matcher_compilePGoStmtList ::
  "(stmt list \<Rightarrow> Matcher) \<Rightarrow> matcherCompiler \<Rightarrow> StmtList \<Rightarrow> stmtSliceContainerMatcher" where
  "matcher_compilePGoStmtList compile c slist =
     \<lparr>stmtSliceContainerMatcher.Stmts = compile (matcher_list c slist)\<rparr>"

definition replacer_compilePGoStmtList ::
  "(stmt list \<Rightarrow> Replacer) \<Rightarrow> replacerCompiler \<Rightarrow> StmtList \<Rightarrow> stmtSliceContainerReplacer" where
  "replacer_compilePGoStmtList compile c slist =
     \<lparr>stmtSliceContainerReplacer.Stmts = compile (replacer_list c slist)\<rparr>"

section \<open>Vocabulary of the statements\<close>

text \<open>The three container types that \<^verbatim>\<open>Match\<close> recognizes.\<close>

definition is_container :: "rtype \<Rightarrow> bool" where
  "is_container T \<longleftrightarrow> T = BlockStmtType \<or> T = CaseClauseType \<or> T = CommClauseType"

text \<open>
  \<open>holds h v t\<close>: \<open>v\<close> is a valid Value of type \<open>t\<close> and, where \<open>t\<close> is a
  pointer type, what it holds is nil or an address, as every Go pointer is.
\<close>

fun pointer_shaped :: "goval \<Rightarrow> bool" where
  "pointer_shaped NilV = True"
| "pointer_shaped (PtrV a p) = True"
| "pointer_shaped x = False"

definition holds :: "heap \<Rightarrow> rvalue \<Rightarrow> rtype \<Rightarrow> bool" where
  "holds h v t \<longleftrightarrow>
     Value_Type h v = Inr t \<and>
     (case Value_read h v of
        Inl e \<Rightarrow> False
      | Inr x \<Rightarrow> Type_Kind t \<noteq> reflect_Ptr \<or> pointer_shaped x)"

text \<open>\<open>points_to h v T a\<close>: \<open>v\<close> is a pointer of type \<open>*T\<close> to the variable at \<open>a\<close>.\<close>

definition points_to :: "heap \<Rightarrow> rvalue \<Rightarrow> rtype \<Rightarrow> nat \<Rightarrow> bool" where
  "points_to h v T a \<longleftrightarrow> Value_Type h v = Inr (PtrT T) \<and> Value_read h v = Inr (PtrV a [])"

text \<open>
  \<open>node_at h a T fs\<close>: the variable at \<open>a\<close> is a node of the container type \<open>T\<close>
  with the field values \<open>fs\<close>, one for each field of \<open>T\<close>.
\<close>

definition node_at :: "heap \<Rightarrow> nat \<Rightarrow> rtype \<Rightarrow> goval list \<Rightarrow> bool" where
  "node_at h a T fs \<longleftrightarrow>
     is_container T \<and> a < length h \<and> h ! a = (T, StructV fs) \<and>
     Type_NumField T = Inr (length fs)"

text \<open>
  The prelude boundary of a node: the incoming region position for a block, the
  value of \<^verbatim>\<open>Colon\<close> (field 2) for a case or communication clause.
\<close>

definition prelude_end :: "rtype \<Rightarrow> goval list \<Rightarrow> Region \<Rightarrow> token_Pos option" where
  "prelude_end T fs r =
     (if T = BlockStmtType then Some (Pos r)
      else (case fs ! 2 of IntV c \<Rightarrow> Some c | _ \<Rightarrow> None))"

text \<open>
  The index of the statement-list field: \<^verbatim>\<open>List\<close> is field 1 of a block,
  \<^verbatim>\<open>Body\<close> field 3 of a clause.
\<close>

definition stmt_index :: "rtype \<Rightarrow> nat" where
  "stmt_index T = (if T = BlockStmtType then 1 else 3)"

definition num_fields :: "rtype \<Rightarrow> nat" where
  "num_fields T = (case Type_NumField T of Inl e \<Rightarrow> 0 | Inr n \<Rightarrow> n)"

text \<open>
  The shape metadata for a node of type \<open>T\<close> at address \<open>a\<close> with prelude boundary
  \<open>b\<close>, written out; that \<^verbatim>\<open>Match\<close> stores exactly this is proved below.
\<close>

definition captured :: "rtype \<Rightarrow> nat \<Rightarrow> token_Pos \<Rightarrow> stmtListData" where
  "captured T a b =
     \<lparr>Type = T,
      StmtFieldIdx = stmt_index T,
      OtherFields = map (\<lambda>i. \<lparr>FieldIdx = i, Value = Loc a [i]\<rparr>)
                      (filter (\<lambda>i. i \<noteq> stmt_index T) [0..<num_fields T]),
      UnchangedRegion = \<lparr>Pos = b + 1, End = b\<rparr>\<rparr>"

text \<open>
  A statement-list matcher that leaves the binding of the private key as it finds
  it: the key is private to this file, so no collaborator can bind it.
\<close>

definition keeps_key :: "Matcher \<Rightarrow> bool" where
  "keeps_key M \<longleftrightarrow>
     (\<forall>h v d r d' ok. M h v d r = Inr (d', ok) \<longrightarrow>
        Lookup d' stmtListKey = Lookup d stmtListKey)"

section \<open>What the container matcher computes\<close>

lemma types_distinct [simp]:
  "BlockStmtType \<noteq> CaseClauseType" "BlockStmtType \<noteq> CommClauseType"
  "CaseClauseType \<noteq> CommClauseType" "CaseClauseType \<noteq> BlockStmtType"
  "CommClauseType \<noteq> BlockStmtType" "CommClauseType \<noteq> CaseClauseType"
  by (simp_all add: BlockStmtType_def CaseClauseType_def CommClauseType_def)

lemma upt_3: "[0..<3] = [0, 1, 2]" and upt_4: "[0..<4] = [0, 1, 2, 3]"
  by (simp_all add: upt_rec)

lemma list3: "length fs = 3 \<Longrightarrow> \<exists>x0 x1 x2. fs = [x0, x1, x2]"
  by (auto simp: eval_nat_numeral length_Suc_conv)

lemma list4: "length fs = 4 \<Longrightarrow> \<exists>x0 x1 x2 x3. fs = [x0, x1, x2, x3]"
  by (auto simp: eval_nat_numeral length_Suc_conv)

lemma Lookup_WithValue [simp]:
  "Lookup (WithValue d stmtListKey (StmtListData sd)) stmtListKey = Some sd"
  by (simp add: Lookup_def WithValue_def)

lemma captured_Block:
  "captured BlockStmtType a b =
     \<lparr>Type = BlockStmtType, StmtFieldIdx = 1,
      OtherFields = [\<lparr>FieldIdx = 0, Value = Loc a [0]\<rparr>, \<lparr>FieldIdx = 2, Value = Loc a [2]\<rparr>],
      UnchangedRegion = \<lparr>Pos = b + 1, End = b\<rparr>\<rparr>"
  by (simp add: captured_def stmt_index_def num_fields_def BlockStmtType_def upt_3)

lemma captured_Case:
  "captured CaseClauseType a b =
     \<lparr>Type = CaseClauseType, StmtFieldIdx = 3,
      OtherFields = [\<lparr>FieldIdx = 0, Value = Loc a [0]\<rparr>, \<lparr>FieldIdx = 1, Value = Loc a [1]\<rparr>,
                     \<lparr>FieldIdx = 2, Value = Loc a [2]\<rparr>],
      UnchangedRegion = \<lparr>Pos = b + 1, End = b\<rparr>\<rparr>"
  by (simp add: captured_def stmt_index_def num_fields_def upt_4)
    (simp add: CaseClauseType_def upt_4)

lemma captured_Comm:
  "captured CommClauseType a b =
     \<lparr>Type = CommClauseType, StmtFieldIdx = 3,
      OtherFields = [\<lparr>FieldIdx = 0, Value = Loc a [0]\<rparr>, \<lparr>FieldIdx = 1, Value = Loc a [1]\<rparr>,
                     \<lparr>FieldIdx = 2, Value = Loc a [2]\<rparr>],
      UnchangedRegion = \<lparr>Pos = b + 1, End = b\<rparr>\<rparr>"
  by (simp add: captured_def stmt_index_def num_fields_def upt_4)
    (simp add: CommClauseType_def upt_4)

lemma Match_BlockStmt:
  assumes "points_to h v BlockStmtType a" "a < length h" "fst (h ! a) = BlockStmtType"
  shows "Match m h v d r =
    stmtSliceContainerMatcher.Stmts m h (Loc a [1])
      (WithValue d stmtListKey (StmtListData (captured BlockStmtType a (Pos r))))
      (r\<lparr>Pos := Pos r + 1\<rparr>)"
  using assms
  apply (simp add: Match_def points_to_def Value_Elem_def captured_Block)
  apply (simp add: BlockStmtType_def fields_loop.simps Value_Field_def eval_nat_numeral)
  done

lemma Match_CaseClause:
  assumes "points_to h v CaseClauseType a" "a < length h"
    "h ! a = (CaseClauseType, StructV fs)" "length fs = 4" "fs ! 2 = IntV c"
  shows "Match m h v d r =
    stmtSliceContainerMatcher.Stmts m h (Loc a [3])
      (WithValue d stmtListKey (StmtListData (captured CaseClauseType a c)))
      (r\<lparr>Pos := c + 1\<rparr>)"
  using assms
  apply (simp add: Match_def points_to_def Value_Elem_def captured_Case)
  apply (simp add: CaseClauseType_def CommClauseType_def fields_loop.simps Value_Field_def
      Value_FieldByName_def Value_Int_def token_PosT_def eval_nat_numeral)
  done

lemma Match_CommClause:
  assumes "points_to h v CommClauseType a" "a < length h"
    "h ! a = (CommClauseType, StructV fs)" "length fs = 4" "fs ! 2 = IntV c"
  shows "Match m h v d r =
    stmtSliceContainerMatcher.Stmts m h (Loc a [3])
      (WithValue d stmtListKey (StmtListData (captured CommClauseType a c)))
      (r\<lparr>Pos := c + 1\<rparr>)"
  using assms
  apply (simp add: Match_def points_to_def Value_Elem_def captured_Comm)
  apply (simp add: CaseClauseType_def CommClauseType_def fields_loop.simps Value_Field_def
      Value_FieldByName_def Value_Int_def token_PosT_def eval_nat_numeral)
  done

lemma container_cases:
  assumes "node_at h a T fs"
  obtains "T = BlockStmtType" "length fs = 3"
  | "T = CaseClauseType" "length fs = 4"
  | "T = CommClauseType" "length fs = 4"
  using assms
  by (auto simp: node_at_def is_container_def BlockStmtType_def CaseClauseType_def
      CommClauseType_def)

lemma Match_container:
  assumes "node_at h a T fs" "points_to h v T a" "prelude_end T fs r = Some b"
  shows "Match m h v d r =
    stmtSliceContainerMatcher.Stmts m h (Loc a [stmt_index T])
      (WithValue d stmtListKey (StmtListData (captured T a b)))
      (r\<lparr>Pos := b + 1\<rparr>)"
  using assms(1)
proof (cases rule: container_cases)
  case 1
  with assms show ?thesis
    by (simp add: Match_BlockStmt node_at_def prelude_end_def stmt_index_def)
next
  case 2
  have "fs ! 2 = IntV b"
    using 2 assms(3) by (auto simp: prelude_end_def split: goval.splits)
  with 2 assms show ?thesis
    by (simp add: Match_CaseClause [where fs = fs] node_at_def stmt_index_def)
next
  case 3
  have "fs ! 2 = IntV b"
    using 3 assms(3) by (auto simp: prelude_end_def split: goval.splits)
  with 3 assms show ?thesis
    by (simp add: Match_CommClause [where fs = fs] node_at_def stmt_index_def)
qed

text \<open>
  Outside the three container types, and for a Value that is not a pointer, \<^verbatim>\<open>Match\<close>
  answers no-match and hands the context back.
\<close>

lemma Match_not_pointer:
  "Value_Type h v = Inr t \<Longrightarrow> Type_Kind t \<noteq> reflect_Ptr \<Longrightarrow> Match m h v d r = Inr (d, False)"
  by (simp add: Match_def)

lemma Match_other_pointer:
  assumes "holds h v (PtrT T)" "\<not> is_container T"
  shows "Match m h v d r = Inr (d, False)"
proof -
  from assms(1) obtain x where "Value_Type h v = Inr (PtrT T)" "Value_read h v = Inr x"
    "pointer_shaped x"
    by (auto simp: holds_def split: sum.splits)
  with assms(2) show ?thesis
    by (cases x) (simp_all add: Match_def Value_Elem_def is_container_def)
qed

text \<open>
  Whatever \<^verbatim>\<open>Match\<close> returns for a pointer to a container type is what the
  statement-list matcher returned.
\<close>

lemma Match_returns_delegate:
  assumes "Value_Type h v = Inr (PtrT T)" "is_container T" "Match m h v d r = Inr res"
  shows "\<exists>sv sd b. stmtSliceContainerMatcher.Stmts m h sv
           (WithValue d stmtListKey (StmtListData sd)) (r\<lparr>Pos := b + 1\<rparr>) = Inr res \<and>
         Type sd = T \<and> UnchangedRegion sd = \<lparr>Pos = b + 1, End = b\<rparr>"
  using assms
  apply (auto simp: Match_def is_container_def Let_def
      split: sum.splits option.splits if_splits prod.splits)
     apply (rule exI, rule exI, rule exI, rule conjI, assumption, simp)+
  done

text \<open>
  The two inputs on which \<^verbatim>\<open>Match\<close> panics: the zero Value (in \<^verbatim>\<open>v.Type()\<close>) and a
  nil pointer of a container type (in \<^verbatim>\<open>v.Field(i)\<close> or \<^verbatim>\<open>v.FieldByName\<close>, called on
  the zero Value that \<^verbatim>\<open>v.Elem()\<close> returns for nil).
\<close>

lemma Match_zero_Value: "isl (Match m h Invalid d r)"
  by (simp add: Match_def)

lemma Match_nil_pointer:
  assumes "Value_Type h v = Inr (PtrT T)" "Value_read h v = Inr NilV" "is_container T"
  shows "isl (Match m h v d r)"
  using assms(3) unfolding is_container_def
proof (elim disjE)
  assume "T = BlockStmtType"
  with assms(1,2) show ?thesis
    by (simp add: Match_def Value_Elem_def)
      (simp add: BlockStmtType_def fields_loop.simps Value_Field_def)
next
  assume "T = CaseClauseType"
  with assms(1,2) show ?thesis
    by (simp add: Match_def Value_Elem_def Value_FieldByName_def)
next
  assume "T = CommClauseType"
  with assms(1,2) show ?thesis
    by (simp add: Match_def Value_Elem_def Value_FieldByName_def)
qed

lemma captured_simps [simp]:
  "Type (captured T a b) = T"
  "StmtFieldIdx (captured T a b) = stmt_index T"
  "UnchangedRegion (captured T a b) = \<lparr>Pos = b + 1, End = b\<rparr>"
  by (simp_all add: captured_def)

lemma captured_other_fields:
  assumes "node_at h a T fs"
  shows "length (OtherFields (captured T a b)) = num_fields T - 1"
    and "map FieldIdx (OtherFields (captured T a b)) =
           filter (\<lambda>i. i \<noteq> stmt_index T) [0..<num_fields T]"
    and "\<forall>f \<in> set (OtherFields (captured T a b)).
           Value f = Loc a [FieldIdx f] \<and> Value_read h (Value f) = Inr (fs ! FieldIdx f)"
proof -
  have n: "num_fields T = length fs"
    using assms by (simp add: node_at_def num_fields_def)
  show "map FieldIdx (OtherFields (captured T a b)) =
      filter (\<lambda>i. i \<noteq> stmt_index T) [0..<num_fields T]"
    by (simp add: captured_def o_def)
  show "\<forall>f \<in> set (OtherFields (captured T a b)).
      Value f = Loc a [FieldIdx f] \<and> Value_read h (Value f) = Inr (fs ! FieldIdx f)"
    using assms n by (auto simp: captured_def node_at_def)
  show "length (OtherFields (captured T a b)) = num_fields T - 1"
    using assms n
    by (cases rule: container_cases)
      (simp_all add: captured_Block captured_Case captured_Comm)
qed

lemma stmt_field:
  assumes "node_at h a T fs"
  shows "Type_Field T (stmt_index T) =
           Inr (if T = BlockStmtType then ''List'' else ''Body'', SliceT StmtT)"
    and "stmt_index T < length fs"
  using assms
  by (cases rule: container_cases;
      simp add: stmt_index_def BlockStmtType_def CaseClauseType_def CommClauseType_def)+

lemma sint_succ:
  assumes "sint (b :: 64 word) \<noteq> 2 ^ 63 - 1"
  shows "sint (b + 1) = sint b + 1"
proof -
  have "sint b < 2 ^ 63" "- (2 ^ 63) \<le> sint b"
    using sint_lt [of b] sint_ge [of b] by simp_all
  with assms have "- (2 ^ 63) \<le> sint b + 1" "sint b + 1 < 2 ^ 63"
    by simp_all
  then have "signed_take_bit 63 (sint b + 1) = sint b + 1"
    by (simp add: signed_take_bit_int_eq_self)
  then show ?thesis
    by (simp add: sint_word_ariths)
qed

section \<open>The claims about the matcher\<close>

text \<open>
  Claim C2. For a target that points to a node of one of the three container types,
  the unchanged region stored in the shape metadata starts at the scan position
  already advanced, one past the prelude boundary \<open>b\<close>, and ends at the boundary
  itself: \<open>Pos = End + 1\<close>. The addition is that of a 64-bit \<^verbatim>\<open>int\<close>; unless the
  boundary is the largest \<^verbatim>\<open>int\<close>, the start is one past the end as integers too.
\<close>

theorem Match_unchanged_region:
  assumes "node_at h a T fs" "points_to h v T a" "prelude_end T fs r = Some b"
  shows "\<exists>sd. (\<forall>m. Match m h v d r =
                 stmtSliceContainerMatcher.Stmts m h (Loc a [stmt_index T])
                   (WithValue d stmtListKey (StmtListData sd)) (r\<lparr>Pos := b + 1\<rparr>)) \<and>
              Pos (UnchangedRegion sd) = Pos (r\<lparr>Pos := b + 1\<rparr>) \<and>
              End (UnchangedRegion sd) = b \<and>
              Pos (UnchangedRegion sd) = End (UnchangedRegion sd) + 1 \<and>
              (sint b \<noteq> 2 ^ 63 - 1 \<longrightarrow>
                 sint (Pos (UnchangedRegion sd)) = sint (End (UnchangedRegion sd)) + 1)"
proof (intro exI [of _ "captured T a b"] conjI allI impI)
  fix m
  show "Match m h v d r =
      stmtSliceContainerMatcher.Stmts m h (Loc a [stmt_index T])
        (WithValue d stmtListKey (StmtListData (captured T a b))) (r\<lparr>Pos := b + 1\<rparr>)"
    using assms by (rule Match_container)
next
  assume "sint b \<noteq> 2 ^ 63 - 1"
  then show "sint (Pos (UnchangedRegion (captured T a b))) =
      sint (End (UnchangedRegion (captured T a b))) + 1"
    by (simp add: sint_succ)
qed simp_all

theorem Match_unchanged_region_witness:
  "node_at [(CaseClauseType, StructV [IntV 3, NilV, IntV 10, NilV])] 0 CaseClauseType
     [IntV 3, NilV, IntV 10, NilV] \<and>
   points_to [(CaseClauseType, StructV [IntV 3, NilV, IntV 10, NilV])]
     (Imm (PtrT CaseClauseType) (PtrV 0 [])) CaseClauseType 0 \<and>
   prelude_end CaseClauseType [IntV 3, NilV, IntV 10, NilV] \<lparr>Pos = 3, End = 12\<rparr> = Some 10 \<and>
   (\<exists>sd. (\<forall>m. Match m [(CaseClauseType, StructV [IntV 3, NilV, IntV 10, NilV])]
                 (Imm (PtrT CaseClauseType) (PtrV 0 [])) [] \<lparr>Pos = 3, End = 12\<rparr> =
               stmtSliceContainerMatcher.Stmts m
                 [(CaseClauseType, StructV [IntV 3, NilV, IntV 10, NilV])] (Loc 0 [3])
                 (WithValue [] stmtListKey (StmtListData sd)) \<lparr>Pos = 11, End = 12\<rparr>) \<and>
          Pos (UnchangedRegion sd) = 11 \<and> End (UnchangedRegion sd) = 10)"
proof -
  have n: "node_at [(CaseClauseType, StructV [IntV 3, NilV, IntV 10, NilV])] 0 CaseClauseType
      [IntV 3, NilV, IntV 10, NilV]"
    by (simp add: node_at_def is_container_def) (simp add: CaseClauseType_def)
  have p: "points_to [(CaseClauseType, StructV [IntV 3, NilV, IntV 10, NilV])]
      (Imm (PtrT CaseClauseType) (PtrV 0 [])) CaseClauseType 0"
    by (simp add: points_to_def)
  have b: "prelude_end CaseClauseType [IntV 3, NilV, IntV 10, NilV] \<lparr>Pos = 3, End = 12\<rparr> = Some 10"
    by (simp add: prelude_end_def)
  from Match_unchanged_region [OF n p b, of "[]"] n p b show ?thesis
    by (simp add: stmt_index_def) blast
qed

text \<open>
  Claim C5. For a recognized container node, \<^verbatim>\<open>Match\<close> is one call of the
  statement-list matcher and returns its outcome as it is: on the statement-list
  field of the node, under the caller's context extended at the private key with the
  shape metadata (type, index of the statement field, the other fields, the
  unchanged region), and with the region whose position is already one past the
  prelude boundary: the incoming region position for a block, the colon for a case
  or communication clause.
\<close>

theorem Match_delegates:
  assumes "node_at h a T fs" "points_to h v T a" "prelude_end T fs r = Some b"
  shows "Match m h v d r =
           stmtSliceContainerMatcher.Stmts m h (Loc a [stmt_index T])
             (WithValue d stmtListKey (StmtListData (captured T a b)))
             (r\<lparr>Pos := b + 1\<rparr>) \<and>
         Value_read h (Loc a [stmt_index T]) = Inr (fs ! stmt_index T) \<and>
         Lookup (WithValue d stmtListKey (StmtListData (captured T a b))) stmtListKey =
           Some \<lparr>Type = T, StmtFieldIdx = stmt_index T,
                 OtherFields = OtherFields (captured T a b),
                 UnchangedRegion = \<lparr>Pos = b + 1, End = b\<rparr>\<rparr> \<and>
         (T = BlockStmtType \<and> b = Pos r \<or>
          (T = CaseClauseType \<or> T = CommClauseType) \<and> fs ! 2 = IntV b)"
proof (intro conjI)
  show "Match m h v d r =
      stmtSliceContainerMatcher.Stmts m h (Loc a [stmt_index T])
        (WithValue d stmtListKey (StmtListData (captured T a b))) (r\<lparr>Pos := b + 1\<rparr>)"
    using assms by (rule Match_container)
  show "Value_read h (Loc a [stmt_index T]) = Inr (fs ! stmt_index T)"
    using assms(1) stmt_field(2) [OF assms(1)] by (simp add: node_at_def)
  show "Lookup (WithValue d stmtListKey (StmtListData (captured T a b))) stmtListKey =
      Some \<lparr>Type = T, StmtFieldIdx = stmt_index T, OtherFields = OtherFields (captured T a b),
            UnchangedRegion = \<lparr>Pos = b + 1, End = b\<rparr>\<rparr>"
    by (simp add: captured_def)
  show "T = BlockStmtType \<and> b = Pos r \<or>
      (T = CaseClauseType \<or> T = CommClauseType) \<and> fs ! 2 = IntV b"
    using assms(1,3)
    by (auto simp: prelude_end_def node_at_def is_container_def split: if_splits goval.splits)
qed

theorem Match_delegates_witness:
  "node_at [(CaseClauseType, StructV [IntV 3, NilV, IntV 10, NilV])] 0 CaseClauseType
     [IntV 3, NilV, IntV 10, NilV] \<and>
   points_to [(CaseClauseType, StructV [IntV 3, NilV, IntV 10, NilV])]
     (Imm (PtrT CaseClauseType) (PtrV 0 [])) CaseClauseType 0 \<and>
   prelude_end CaseClauseType [IntV 3, NilV, IntV 10, NilV] \<lparr>Pos = 3, End = 12\<rparr> = Some 10 \<and>
   Match \<lparr>stmtSliceContainerMatcher.Stmts =
            (\<lambda>h v d r. Inr (d, v = Loc 0 [3] \<and> r = \<lparr>Pos = 11, End = 12\<rparr>))\<rparr>
     [(CaseClauseType, StructV [IntV 3, NilV, IntV 10, NilV])]
     (Imm (PtrT CaseClauseType) (PtrV 0 [])) [] \<lparr>Pos = 3, End = 12\<rparr> =
   Inr ([(stmtListKey,
          StmtListData
            \<lparr>Type = CaseClauseType, StmtFieldIdx = 3,
             OtherFields = [\<lparr>FieldIdx = 0, Value = Loc 0 [0]\<rparr>,
                            \<lparr>FieldIdx = 1, Value = Loc 0 [1]\<rparr>,
                            \<lparr>FieldIdx = 2, Value = Loc 0 [2]\<rparr>],
             UnchangedRegion = \<lparr>Pos = 11, End = 10\<rparr>\<rparr>)], True)"
proof -
  have n: "node_at [(CaseClauseType, StructV [IntV 3, NilV, IntV 10, NilV])] 0 CaseClauseType
      [IntV 3, NilV, IntV 10, NilV]"
    by (simp add: node_at_def is_container_def) (simp add: CaseClauseType_def)
  have p: "points_to [(CaseClauseType, StructV [IntV 3, NilV, IntV 10, NilV])]
      (Imm (PtrT CaseClauseType) (PtrV 0 [])) CaseClauseType 0"
    by (simp add: points_to_def)
  have b: "prelude_end CaseClauseType [IntV 3, NilV, IntV 10, NilV] \<lparr>Pos = 3, End = 12\<rparr> = Some 10"
    by (simp add: prelude_end_def)
  from Match_delegates [OF n p b, of _ "[]"] n p b show ?thesis
    by (simp add: stmt_index_def captured_Case WithValue_def)
qed

text \<open>
  Claim C3. Given a target that points to a node of one of the three container
  types, \<^verbatim>\<open>Match\<close> hands the statement-list field of the node (\<^verbatim>\<open>List\<close> of a
  block, \<^verbatim>\<open>Body\<close> of a clause) to the statement-list matcher and succeeds when that
  matcher does. The metadata it stores has the node's type and lists every field
  but the statement-list field, in order, by index and value: one entry less than
  the type has fields. A valid target of any other shape (not a pointer, or a
  pointer to another type) never matches.
\<close>

theorem Match_shape_coverage:
  "(node_at h a T fs \<and> points_to h v T a \<and> prelude_end T fs r = Some b \<longrightarrow>
      Match m h v d r =
        stmtSliceContainerMatcher.Stmts m h (Loc a [StmtFieldIdx (captured T a b)])
          (WithValue d stmtListKey (StmtListData (captured T a b))) (r\<lparr>Pos := b + 1\<rparr>) \<and>
      (stmtSliceContainerMatcher.Stmts m h (Loc a [StmtFieldIdx (captured T a b)])
          (WithValue d stmtListKey (StmtListData (captured T a b))) (r\<lparr>Pos := b + 1\<rparr>) =
         Inr (d', True) \<longrightarrow>
       Match m h v d r = Inr (d', True)) \<and>
      Type (captured T a b) = T \<and>
      Type_Field T (StmtFieldIdx (captured T a b)) =
        Inr (if T = BlockStmtType then ''List'' else ''Body'', SliceT StmtT) \<and>
      length (OtherFields (captured T a b)) = num_fields T - 1 \<and>
      map FieldIdx (OtherFields (captured T a b)) =
        filter (\<lambda>i. i \<noteq> StmtFieldIdx (captured T a b)) [0..<num_fields T] \<and>
      (\<forall>f \<in> set (OtherFields (captured T a b)).
         Value f = Loc a [FieldIdx f] \<and>
         Value_read h (Value f) = Inr (fs ! FieldIdx f))) \<and>
   (holds h v t \<and> (Type_Kind t \<noteq> reflect_Ptr \<or> (\<exists>T'. t = PtrT T' \<and> \<not> is_container T')) \<longrightarrow>
      Match m h v d r = Inr (d, False))"
proof (intro conjI impI)
  assume "holds h v t \<and>
    (Type_Kind t \<noteq> reflect_Ptr \<or> (\<exists>T'. t = PtrT T' \<and> \<not> is_container T'))"
  then show "Match m h v d r = Inr (d, False)"
    by (auto simp: Match_other_pointer intro: Match_not_pointer simp: holds_def)
next
  assume "node_at h a T fs \<and> points_to h v T a \<and> prelude_end T fs r = Some b"
  then have n: "node_at h a T fs" and p: "points_to h v T a"
    and b: "prelude_end T fs r = Some b"
    by simp_all
  show eq: "Match m h v d r =
      stmtSliceContainerMatcher.Stmts m h (Loc a [StmtFieldIdx (captured T a b)])
        (WithValue d stmtListKey (StmtListData (captured T a b))) (r\<lparr>Pos := b + 1\<rparr>)"
    using Match_container [OF n p b] by simp
  show "Match m h v d r = Inr (d', True)"
    if "stmtSliceContainerMatcher.Stmts m h (Loc a [StmtFieldIdx (captured T a b)])
        (WithValue d stmtListKey (StmtListData (captured T a b))) (r\<lparr>Pos := b + 1\<rparr>) =
      Inr (d', True)"
    using that eq by simp
  show "Type (captured T a b) = T"
    by simp
  show "Type_Field T (StmtFieldIdx (captured T a b)) =
      Inr (if T = BlockStmtType then ''List'' else ''Body'', SliceT StmtT)"
    using stmt_field(1) [OF n] by simp
  show "length (OtherFields (captured T a b)) = num_fields T - 1"
    using n by (rule captured_other_fields(1))
  show "map FieldIdx (OtherFields (captured T a b)) =
      filter (\<lambda>i. i \<noteq> StmtFieldIdx (captured T a b)) [0..<num_fields T]"
    using captured_other_fields(2) [OF n] by simp
  show "\<forall>f \<in> set (OtherFields (captured T a b)).
      Value f = Loc a [FieldIdx f] \<and> Value_read h (Value f) = Inr (fs ! FieldIdx f)"
    using n by (rule captured_other_fields(3))
qed

theorem Match_shape_coverage_witness:
  "node_at [(BlockStmtType, StructV [IntV 5, NilV, IntV 6])] 0 BlockStmtType
     [IntV 5, NilV, IntV 6] \<and>
   points_to [(BlockStmtType, StructV [IntV 5, NilV, IntV 6])]
     (Imm (PtrT BlockStmtType) (PtrV 0 [])) BlockStmtType 0 \<and>
   prelude_end BlockStmtType [IntV 5, NilV, IntV 6] \<lparr>Pos = 5, End = 7\<rparr> = Some 5 \<and>
   Match \<lparr>stmtSliceContainerMatcher.Stmts = (\<lambda>h v d r. Inr (d, v = Loc 0 [1]))\<rparr>
     [(BlockStmtType, StructV [IntV 5, NilV, IntV 6])]
     (Imm (PtrT BlockStmtType) (PtrV 0 [])) [] \<lparr>Pos = 5, End = 7\<rparr> =
   Inr ([(stmtListKey,
          StmtListData
            \<lparr>Type = BlockStmtType, StmtFieldIdx = 1,
             OtherFields = [\<lparr>FieldIdx = 0, Value = Loc 0 [0]\<rparr>,
                            \<lparr>FieldIdx = 2, Value = Loc 0 [2]\<rparr>],
             UnchangedRegion = \<lparr>Pos = 6, End = 5\<rparr>\<rparr>)], True) \<and>
   length (OtherFields (captured BlockStmtType 0 5)) = 2 \<and>
   holds [] (Imm (SliceT StmtT) NilV) (SliceT StmtT) \<and>
   Match \<lparr>stmtSliceContainerMatcher.Stmts = (\<lambda>h v d r. Inr (d, True))\<rparr>
     [] (Imm (SliceT StmtT) NilV) [] \<lparr>Pos = 5, End = 7\<rparr> = Inr ([], False)"
proof -
  let ?h = "[(BlockStmtType, StructV [IntV 5, NilV, IntV 6])]"
  have n: "node_at ?h 0 BlockStmtType [IntV 5, NilV, IntV 6]"
    by (simp add: node_at_def is_container_def) (simp add: BlockStmtType_def)
  have p: "points_to ?h (Imm (PtrT BlockStmtType) (PtrV 0 [])) BlockStmtType 0"
    by (simp add: points_to_def)
  have b: "prelude_end BlockStmtType [IntV 5, NilV, IntV 6] \<lparr>Pos = 5, End = 7\<rparr> = Some 5"
    by (simp add: prelude_end_def)
  have nf: "num_fields BlockStmtType = 3"
    by (simp add: num_fields_def BlockStmtType_def)
  have k: "holds [] (Imm (SliceT StmtT) NilV) (SliceT StmtT)"
    by (simp add: holds_def)
  have 1: "Match \<lparr>stmtSliceContainerMatcher.Stmts = (\<lambda>h v d r. Inr (d, v = Loc 0 [1]))\<rparr> ?h
        (Imm (PtrT BlockStmtType) (PtrV 0 [])) [] \<lparr>Pos = 5, End = 7\<rparr> =
      Inr ([(stmtListKey, StmtListData (captured BlockStmtType 0 5))], True)"
    and 2: "length (OtherFields (captured BlockStmtType 0 5)) = 2"
    using Match_shape_coverage
      [of ?h 0 BlockStmtType "[IntV 5, NilV, IntV 6]" "Imm (PtrT BlockStmtType) (PtrV 0 [])"
          "\<lparr>Pos = 5, End = 7\<rparr>" 5
          "\<lparr>stmtSliceContainerMatcher.Stmts = (\<lambda>h v d r. Inr (d, v = Loc 0 [1]))\<rparr>" "[]",
       THEN conjunct1, THEN mp, OF conjI [OF n conjI [OF p b]]]
    by (simp_all add: nf stmt_index_def WithValue_def)
  have 3: "Match \<lparr>stmtSliceContainerMatcher.Stmts = (\<lambda>h v d r. Inr (d, True))\<rparr>
      [] (Imm (SliceT StmtT) NilV) [] \<lparr>Pos = 5, End = 7\<rparr> = Inr ([], False)"
    using Match_shape_coverage [of "[]" _ _ _ "Imm (SliceT StmtT) NilV" _ _ _ "[]" _ "SliceT StmtT",
        THEN conjunct2, THEN mp] k
    by simp
  show ?thesis
    using n p b k 1 2 3 by (simp add: captured_Block)
qed

text \<open>
  Claim C9, as amended. A valid target that is not a pointer, or is a pointer (nil or
  not) to a type other than the three container types, gets no-match with the
  caller's context as it was, and no panic. For a pointer to a container type,
  whatever \<^verbatim>\<open>Match\<close> returns is what the statement-list matcher returned: the
  container matcher itself answers no-match in those two cases only.
\<close>

theorem Match_rejects:
  "(holds h v t \<and> (Type_Kind t \<noteq> reflect_Ptr \<or> (\<exists>T'. t = PtrT T' \<and> \<not> is_container T')) \<longrightarrow>
      Match m h v d r = Inr (d, False)) \<and>
   (Value_Type h v = Inr (PtrT T) \<and> is_container T \<and> Match m h v d r = Inr res \<longrightarrow>
      (\<exists>sv sd b. stmtSliceContainerMatcher.Stmts m h sv
                    (WithValue d stmtListKey (StmtListData sd)) (r\<lparr>Pos := b + 1\<rparr>) =
                  Inr res \<and>
                  Type sd = T \<and> UnchangedRegion sd = \<lparr>Pos = b + 1, End = b\<rparr>))"
proof (intro conjI impI)
  assume "holds h v t \<and>
    (Type_Kind t \<noteq> reflect_Ptr \<or> (\<exists>T'. t = PtrT T' \<and> \<not> is_container T'))"
  then show "Match m h v d r = Inr (d, False)"
    by (auto simp: Match_other_pointer intro: Match_not_pointer simp: holds_def)
next
  assume "Value_Type h v = Inr (PtrT T) \<and> is_container T \<and> Match m h v d r = Inr res"
  then show "\<exists>sv sd b. stmtSliceContainerMatcher.Stmts m h sv
      (WithValue d stmtListKey (StmtListData sd)) (r\<lparr>Pos := b + 1\<rparr>) = Inr res \<and>
    Type sd = T \<and> UnchangedRegion sd = \<lparr>Pos = b + 1, End = b\<rparr>"
    using Match_returns_delegate [of h v T m d r res] by simp
qed

theorem Match_rejects_witness:
  "holds [] (Imm (SliceT StmtT) NilV) (SliceT StmtT) \<and>
   Match \<lparr>stmtSliceContainerMatcher.Stmts = (\<lambda>h v d r. Inr (d, True))\<rparr> []
     (Imm (SliceT StmtT) NilV) [(OtherKey ''x'', OtherValue (Imm token_PosT (IntV 1)))]
     \<lparr>Pos = 5, End = 7\<rparr> =
   Inr ([(OtherKey ''x'', OtherValue (Imm token_PosT (IntV 1)))], False) \<and>
   holds [] (Imm (PtrT (StructT ''ast.ParenExpr''
       [(''Lparen'', token_PosT), (''X'', ExprT), (''Rparen'', token_PosT)])) NilV)
     (PtrT (StructT ''ast.ParenExpr''
       [(''Lparen'', token_PosT), (''X'', ExprT), (''Rparen'', token_PosT)])) \<and>
   \<not> is_container (StructT ''ast.ParenExpr''
       [(''Lparen'', token_PosT), (''X'', ExprT), (''Rparen'', token_PosT)]) \<and>
   Match \<lparr>stmtSliceContainerMatcher.Stmts = (\<lambda>h v d r. Inr (d, True))\<rparr> []
     (Imm (PtrT (StructT ''ast.ParenExpr''
       [(''Lparen'', token_PosT), (''X'', ExprT), (''Rparen'', token_PosT)])) NilV)
     [(OtherKey ''x'', OtherValue (Imm token_PosT (IntV 1)))] \<lparr>Pos = 5, End = 7\<rparr> =
   Inr ([(OtherKey ''x'', OtherValue (Imm token_PosT (IntV 1)))], False) \<and>
   is_container BlockStmtType \<and>
   Match \<lparr>stmtSliceContainerMatcher.Stmts = (\<lambda>h v d r. Inr (d, False))\<rparr>
     [(BlockStmtType, StructV [IntV 5, NilV, IntV 6])]
     (Imm (PtrT BlockStmtType) (PtrV 0 [])) [] \<lparr>Pos = 5, End = 7\<rparr> =
   Inr ([(stmtListKey, StmtListData (captured BlockStmtType 0 5))], False) \<and>
   (\<exists>sv sd b. stmtSliceContainerMatcher.Stmts
        \<lparr>stmtSliceContainerMatcher.Stmts = (\<lambda>h v d r. Inr (d, False))\<rparr>
        [(BlockStmtType, StructV [IntV 5, NilV, IntV 6])] sv
        (WithValue [] stmtListKey (StmtListData sd)) \<lparr>Pos = b + 1, End = 7\<rparr> =
      Inr ([(stmtListKey, StmtListData (captured BlockStmtType 0 5))], False) \<and>
      Type sd = BlockStmtType \<and> UnchangedRegion sd = \<lparr>Pos = b + 1, End = b\<rparr>)"
proof -
  let ?P = "StructT ''ast.ParenExpr''
    [(''Lparen'', token_PosT), (''X'', ExprT), (''Rparen'', token_PosT)]"
  let ?d = "[(OtherKey ''x'', OtherValue (Imm token_PosT (IntV 1)))]"
  let ?h = "[(BlockStmtType, StructV [IntV 5, NilV, IntV 6])]"
  let ?m = "\<lparr>stmtSliceContainerMatcher.Stmts = (\<lambda>h v d r. Inr (d, False))\<rparr>"
  have k1: "holds [] (Imm (SliceT StmtT) NilV) (SliceT StmtT)"
    by (simp add: holds_def)
  have k2: "holds [] (Imm (PtrT ?P) NilV) (PtrT ?P)"
    by (simp add: holds_def)
  have c: "\<not> is_container ?P"
    by (simp add: is_container_def BlockStmtType_def CaseClauseType_def CommClauseType_def)
  have 1: "Match \<lparr>stmtSliceContainerMatcher.Stmts = (\<lambda>h v d r. Inr (d, True))\<rparr> []
      (Imm (SliceT StmtT) NilV) ?d \<lparr>Pos = 5, End = 7\<rparr> = Inr (?d, False)"
    using Match_rejects [where h = "[]" and v = "Imm (SliceT StmtT) NilV" and t = "SliceT StmtT",
        THEN conjunct1, THEN mp] k1
    by (simp add: StmtT_def)
  have 2: "Match \<lparr>stmtSliceContainerMatcher.Stmts = (\<lambda>h v d r. Inr (d, True))\<rparr> []
      (Imm (PtrT ?P) NilV) ?d \<lparr>Pos = 5, End = 7\<rparr> = Inr (?d, False)"
    using Match_rejects [where h = "[]" and v = "Imm (PtrT ?P) NilV" and t = "PtrT ?P",
        THEN conjunct1, THEN mp] k2 c
    by simp
  have b: "is_container BlockStmtType"
    by (simp add: is_container_def)
  have 3: "Match ?m ?h (Imm (PtrT BlockStmtType) (PtrV 0 [])) [] \<lparr>Pos = 5, End = 7\<rparr> =
      Inr ([(stmtListKey, StmtListData (captured BlockStmtType 0 5))], False)"
    by (simp add: Match_BlockStmt points_to_def WithValue_def)
  have 4: "\<exists>sv sd b. stmtSliceContainerMatcher.Stmts ?m ?h sv
        (WithValue [] stmtListKey (StmtListData sd)) \<lparr>Pos = b + 1, End = 7\<rparr> =
      Inr ([(stmtListKey, StmtListData (captured BlockStmtType 0 5))], False) \<and>
      Type sd = BlockStmtType \<and> UnchangedRegion sd = \<lparr>Pos = b + 1, End = b\<rparr>"
    using Match_rejects [where m = ?m and h = ?h and v = "Imm (PtrT BlockStmtType) (PtrV 0 [])"
        and d = "[]" and r = "\<lparr>Pos = 5, End = 7\<rparr>" and T = BlockStmtType,
        THEN conjunct2, THEN mp, OF conjI [OF _ conjI [OF b 3]]]
    by simp
  show ?thesis
    using k1 k2 c 1 2 b 3 4 by (intro conjI)
qed

text \<open>
  As the claim states it, C9 fails: a nil pointer of type \<^verbatim>\<open>*ast.BlockStmt\<close> passes
  the pointer test and the switch on the type, and the loop then calls
  \<^verbatim>\<open>v.Field(0)\<close> on the zero Value that \<^verbatim>\<open>v.Elem()\<close> returned, which panics. The
  zero Value itself, which is no pointer, panics in \<^verbatim>\<open>v.Type()\<close>.
\<close>

theorem Match_nil_block_pointer_panics:
  "Match \<lparr>stmtSliceContainerMatcher.Stmts = (\<lambda>h v d r. Inr (d, True))\<rparr> []
     (Imm (PtrT BlockStmtType) NilV) [] \<lparr>Pos = 5, End = 7\<rparr> =
   Inl (Panic ''reflect: call of reflect.Value.Field on zero Value'') \<and>
   Match \<lparr>stmtSliceContainerMatcher.Stmts = (\<lambda>h v d r. Inr (d, True))\<rparr> []
     Invalid [] \<lparr>Pos = 5, End = 7\<rparr> =
   Inl (Panic ''reflect: call of reflect.Value.Type on zero Value'')"
  by (simp add: Match_def Value_Elem_def)
    (simp add: BlockStmtType_def fields_loop.simps Value_Field_def)

section \<open>What the container replacer computes\<close>

lemma Value_Field_Loc:
  "Value_Type h (Loc a p) = Inr (StructT n tfs) \<Longrightarrow> i < length tfs \<Longrightarrow>
   Value_Field h (Loc a p) i = Inr (Loc a (p @ [i]))"
  by (simp add: Value_Field_def)

lemma Value_Set_Loc:
  "Value_Type h (Loc a p) = Inr t \<Longrightarrow> Value_Type h x = Inr t \<Longrightarrow>
   Value_read h x = Inr y \<Longrightarrow> update_at (snd (h ! a)) p y = Some w \<Longrightarrow>
   Value_Set h (Loc a p) x = Inr (h[a := (fst (h ! a), w)])"
  by (cases x) (simp_all add: Value_Set_def)

text \<open>
  The loop over the other fields turns the zero node just allocated into a copy of
  the matched node with a nil statement list.
\<close>

lemma restore_fields:
  assumes "node_at h a T fs"
  shows "set_fields (h @ [(T, zero_value T)]) (Loc (length h) [])
           (OtherFields (captured T a b)) =
         Inr (h @ [(T, StructV (fs[stmt_index T := NilV]))])"
  using assms
proof (cases rule: container_cases)
  case 1
  then obtain x0 x1 x2 where "fs = [x0, x1, x2]"
    using list3 by blast
  with 1 assms show ?thesis
    apply (simp add: captured_Block node_at_def stmt_index_def)
    apply (simp add: BlockStmtType_def Value_Field_def Value_Set_def nth_append token_PosT_def
        eval_nat_numeral)
    done
next
  case 2
  then obtain x0 x1 x2 x3 where "fs = [x0, x1, x2, x3]"
    using list4 by blast
  with 2 assms show ?thesis
    apply (simp add: captured_Case node_at_def stmt_index_def)
    apply (simp add: CaseClauseType_def Value_Field_def Value_Set_def nth_append token_PosT_def
        eval_nat_numeral)
    done
next
  case 3
  then obtain x0 x1 x2 x3 where "fs = [x0, x1, x2, x3]"
    using list4 by blast
  with 3 assms show ?thesis
    apply (simp add: captured_Comm node_at_def stmt_index_def)
    apply (simp add: CommClauseType_def Value_Field_def Value_Set_def nth_append token_PosT_def
        eval_nat_numeral)
    done
qed


lemma Replace_restored:
  assumes "node_at h a T fs" "Lookup d stmtListKey = Some (captured T a b)"
  shows "Replace rp h d cl pos =
    (case stmtSliceContainerReplacer.Stmts rp
            (h @ [(T, StructV (fs[stmt_index T := NilV]))]) d cl b of
       Inl e \<Rightarrow> Inl e
     | Inr (h3, cl3, stmts, Some err) \<Rightarrow> Inr (h3, cl3, Invalid, Some err)
     | Inr (h3, cl3, stmts, None) \<Rightarrow>
         (case Value_Field h3 (Loc (length h) []) (stmt_index T) of
            Inl e \<Rightarrow> Inl e
          | Inr x \<Rightarrow>
              (case Value_Set h3 x stmts of
                 Inl e \<Rightarrow> Inl e
               | Inr h4 \<Rightarrow>
                   (case Value_Addr h4 (Loc (length h) []) of
                      Inl e \<Rightarrow> Inl e
                    | Inr res \<Rightarrow> Inr (h4, Unchanged cl3 (b + 1) b, res, None)))))"
proof -
  have "set_fields (h @ [(T, zero_value T)]) (Loc (length h) [])
      (OtherFields (captured T a b)) =
    Inr (h @ [(T, StructV (fs[stmt_index T := NilV]))])"
    using assms(1) by (rule restore_fields)
  then show ?thesis
    using assms(2)
    by (simp add: Replace_def reflect_New_def Value_Elem_def
        cong: sum.case_cong prod.case_cong option.case_cong)
qed


lemma Replace_success:
  assumes "node_at h a T fs" "Lookup d stmtListKey = Some (captured T a b)"
    and "stmtSliceContainerReplacer.Stmts rp
           (h @ [(T, StructV (fs[stmt_index T := NilV]))]) d cl b =
         Inr (h @ [(T, StructV (fs[stmt_index T := NilV]))] @ hn, cl3, x, None)"
    and "Value_Type (h @ [(T, StructV (fs[stmt_index T := NilV]))] @ hn) x = Inr (SliceT StmtT)"
    and "Value_read (h @ [(T, StructV (fs[stmt_index T := NilV]))] @ hn) x = Inr sv"
  shows "Replace rp h d cl pos =
    Inr (h @ [(T, StructV (fs[stmt_index T := sv]))] @ hn, Unchanged cl3 (b + 1) b,
         Imm (PtrT T) (PtrV (length h) []), None)"
proof -
  let ?h3 = "h @ [(T, StructV (fs[stmt_index T := NilV]))] @ hn"
  let ?h4 = "h @ [(T, StructV (fs[stmt_index T := sv]))] @ hn"
  have lt: "stmt_index T < length fs"
    using assms(1) by (rule stmt_field(2))
  obtain n tfs where T: "T = StructT n tfs" "length tfs = length fs"
    "snd (tfs ! stmt_index T) = SliceT StmtT"
    using assms(1)
    by (cases rule: container_cases)
      (simp_all add: stmt_index_def BlockStmtType_def CaseClauseType_def CommClauseType_def)
  have node: "Value_Type ?h3 (Loc (length h) []) = Inr (StructT n tfs)"
    using T by simp
  have fld: "Value_Field ?h3 (Loc (length h) []) (stmt_index T) =
      Inr (Loc (length h) [stmt_index T])"
    using Value_Field_Loc [OF node] lt T(2) by simp
  have fty: "Value_Type ?h3 (Loc (length h) [stmt_index T]) = Inr (SliceT StmtT)"
    using T lt by simp
  have upd: "update_at (snd (?h3 ! length h)) [stmt_index T] sv =
      Some (StructV (fs[stmt_index T := sv]))"
    using lt by simp
  have set: "Value_Set ?h3 (Loc (length h) [stmt_index T]) x = Inr ?h4"
    using Value_Set_Loc [OF fty assms(4,5) upd] by simp
  have addr: "Value_Addr ?h4 (Loc (length h) []) = Inr (Imm (PtrT T) (PtrV (length h) []))"
    by (simp add: Value_Addr_def)
  show ?thesis
    using assms(3) fld set addr by (simp add: Replace_restored [OF assms(1,2)])
qed

section \<open>The claims about the replacer\<close>

text \<open>
  Claim C6. A container match on a node at address \<open>a\<close>, then a replace over the
  context that the match returned, with a statement-list replacer that succeeds
  (it only allocates, and returns a \<^verbatim>\<open>[]ast.Stmt\<close> value \<open>sv\<close>): the result points
  to a new variable of the captured type, every field of it but the statement-list
  field reads as the same field of the matched node, and the statement-list field,
  at the recorded index, holds \<open>sv\<close>.
\<close>

theorem Match_Replace_roundtrip:
  assumes "node_at h a T fs" "points_to h v T a" "prelude_end T fs r = Some b"
    and "keeps_key (stmtSliceContainerMatcher.Stmts m)"
    and "Match m h v d r = Inr (d', True)"
    and "stmtSliceContainerReplacer.Stmts rp
           (h @ [(T, StructV (fs[stmt_index T := NilV]))]) d' cl b =
         Inr (h @ [(T, StructV (fs[stmt_index T := NilV]))] @ hn, cl', x, None)"
    and "Value_Type (h @ [(T, StructV (fs[stmt_index T := NilV]))] @ hn) x = Inr (SliceT StmtT)"
    and "Value_read (h @ [(T, StructV (fs[stmt_index T := NilV]))] @ hn) x = Inr sv"
  shows "\<exists>h' sd.
           Replace rp h d' cl pos =
             Inr (h', Unchanged cl' (b + 1) b, Imm (PtrT T) (PtrV (length h) []), None) \<and>
           h' = h @ [(T, StructV (fs[stmt_index T := sv]))] @ hn \<and>
           Lookup d' stmtListKey = Some sd \<and> Type sd = T \<and>
           Value_Type h' (Loc (length h) []) = Inr (Type sd) \<and>
           (\<forall>i < length fs. i \<noteq> StmtFieldIdx sd \<longrightarrow>
              Value_read h' (Loc (length h) [i]) = Value_read h (Loc a [i])) \<and>
           Value_read h' (Loc (length h) [StmtFieldIdx sd]) = Inr sv \<and>
           length h \<noteq> a"
proof -
  let ?h' = "h @ [(T, StructV (fs[stmt_index T := sv]))] @ hn"
  have "stmtSliceContainerMatcher.Stmts m h (Loc a [stmt_index T])
      (WithValue d stmtListKey (StmtListData (captured T a b))) (r\<lparr>Pos := b + 1\<rparr>) =
    Inr (d', True)"
    using Match_container [OF assms(1-3), of m d] assms(5) by simp
  with assms(4) have lk: "Lookup d' stmtListKey = Some (captured T a b)"
    unfolding keeps_key_def by (metis Lookup_WithValue)
  have a: "a < length h" and ha: "h ! a = (T, StructV fs)"
    using assms(1) by (simp_all add: node_at_def)
  have lt: "stmt_index T < length fs"
    using assms(1) by (rule stmt_field(2))
  have "Replace rp h d' cl pos =
      Inr (?h', Unchanged cl' (b + 1) b, Imm (PtrT T) (PtrV (length h) []), None)"
    using assms(1) lk assms(6-8) by (rule Replace_success)
  moreover have "Value_Type ?h' (Loc (length h) []) = Inr (Type (captured T a b))"
    by simp
  moreover have "\<forall>i < length fs. i \<noteq> StmtFieldIdx (captured T a b) \<longrightarrow>
      Value_read ?h' (Loc (length h) [i]) = Value_read h (Loc a [i])"
    using a ha by simp
  moreover have "Value_read ?h' (Loc (length h) [StmtFieldIdx (captured T a b)]) = Inr sv"
    using lt by simp
  moreover have "length h \<noteq> a"
    using a by simp
  ultimately show ?thesis
    using lk by (intro exI [of _ ?h'] exI [of _ "captured T a b"]) simp
qed

theorem Match_Replace_roundtrip_witness:
  "node_at [(BlockStmtType, StructV [IntV 5, NilV, IntV 6])] 0 BlockStmtType
     [IntV 5, NilV, IntV 6] \<and>
   points_to [(BlockStmtType, StructV [IntV 5, NilV, IntV 6])]
     (Imm (PtrT BlockStmtType) (PtrV 0 [])) BlockStmtType 0 \<and>
   prelude_end BlockStmtType [IntV 5, NilV, IntV 6] \<lparr>Pos = 5, End = 7\<rparr> = Some 5 \<and>
   keeps_key (\<lambda>h v d r. Inr (d, True)) \<and>
   Match \<lparr>stmtSliceContainerMatcher.Stmts = (\<lambda>h v d r. Inr (d, True))\<rparr>
     [(BlockStmtType, StructV [IntV 5, NilV, IntV 6])]
     (Imm (PtrT BlockStmtType) (PtrV 0 [])) [] \<lparr>Pos = 5, End = 7\<rparr> =
   Inr ([(stmtListKey, StmtListData (captured BlockStmtType 0 5))], True) \<and>
   (\<exists>h'. Replace
      \<lparr>stmtSliceContainerReplacer.Stmts =
         (\<lambda>h d cl p. Inr (h, cl, Imm (SliceT StmtT) (SliceV []), None))\<rparr>
      [(BlockStmtType, StructV [IntV 5, NilV, IntV 6])]
      [(stmtListKey, StmtListData (captured BlockStmtType 0 5))] [] 0 =
    Inr (h', [(6, 5)], Imm (PtrT BlockStmtType) (PtrV 1 []), None) \<and>
    h' = [(BlockStmtType, StructV [IntV 5, NilV, IntV 6]),
          (BlockStmtType, StructV [IntV 5, SliceV [], IntV 6])])"
proof -
  let ?h = "[(BlockStmtType, StructV [IntV 5, NilV, IntV 6])]"
  let ?m = "\<lparr>stmtSliceContainerMatcher.Stmts = (\<lambda>h v d r. Inr (d, True))\<rparr>"
  let ?rp = "\<lparr>stmtSliceContainerReplacer.Stmts =
    (\<lambda>h d cl p. Inr (h, cl, Imm (SliceT StmtT) (SliceV []), None))\<rparr>"
  let ?d = "[(stmtListKey, StmtListData (captured BlockStmtType 0 5))]"
  have n: "node_at ?h 0 BlockStmtType [IntV 5, NilV, IntV 6]"
    by (simp add: node_at_def is_container_def) (simp add: BlockStmtType_def)
  have p: "points_to ?h (Imm (PtrT BlockStmtType) (PtrV 0 [])) BlockStmtType 0"
    by (simp add: points_to_def)
  have b: "prelude_end BlockStmtType [IntV 5, NilV, IntV 6] \<lparr>Pos = 5, End = 7\<rparr> = Some 5"
    by (simp add: prelude_end_def)
  have k: "keeps_key (stmtSliceContainerMatcher.Stmts ?m)"
    by (simp add: keeps_key_def)
  have mt: "Match ?m ?h (Imm (PtrT BlockStmtType) (PtrV 0 [])) [] \<lparr>Pos = 5, End = 7\<rparr> =
      Inr (?d, True)"
    by (simp add: Match_BlockStmt points_to_def WithValue_def)
  have rp: "stmtSliceContainerReplacer.Stmts ?rp
      (?h @ [(BlockStmtType, StructV ([IntV 5, NilV, IntV 6][stmt_index BlockStmtType := NilV]))])
      ?d [] 5 =
    Inr (?h @ [(BlockStmtType, StructV ([IntV 5, NilV, IntV 6][stmt_index BlockStmtType := NilV]))]
           @ [], [], Imm (SliceT StmtT) (SliceV []), None)"
    by simp
  have ex: "\<exists>h'. Replace ?rp ?h ?d [] 0 =
        Inr (h', Unchanged [] (5 + 1) 5, Imm (PtrT BlockStmtType) (PtrV (length ?h) []), None) \<and>
      h' = ?h @ [(BlockStmtType,
                  StructV ([IntV 5, NilV, IntV 6][stmt_index BlockStmtType := SliceV []]))] @ []"
    using Match_Replace_roundtrip [OF n p b k mt rp, of "SliceV []" 0] by auto
  have "\<exists>h'. Replace ?rp ?h ?d [] 0 =
      Inr (h', [(6, 5)], Imm (PtrT BlockStmtType) (PtrV 1 []), None) \<and>
    h' = [(BlockStmtType, StructV [IntV 5, NilV, IntV 6]),
          (BlockStmtType, StructV [IntV 5, SliceV [], IntV 6])]"
    using ex by (simp add: Unchanged_def stmt_index_def)
  then show ?thesis
    using n p b k mt by simp
qed






text \<open>
  Claim C10. On success \<^verbatim>\<open>Replace\<close> returns a pointer, of type pointer to the
  captured container type, to the variable it allocated: the address is a new one,
  the memory it was given is as before (the matched node too, the statement-list
  replacer only allocating), and the result is a target that \<^verbatim>\<open>Match\<close> accepts: a
  pointer to a node of a container type.
\<close>

theorem Replace_fresh_pointer:
  assumes "node_at h a T fs" "Lookup d stmtListKey = Some (captured T a b)"
    and "stmtSliceContainerReplacer.Stmts rp
           (h @ [(T, StructV (fs[stmt_index T := NilV]))]) d cl b =
         Inr (h @ [(T, StructV (fs[stmt_index T := NilV]))] @ hn, cl3, x, None)"
    and "Value_Type (h @ [(T, StructV (fs[stmt_index T := NilV]))] @ hn) x = Inr (SliceT StmtT)"
    and "Value_read (h @ [(T, StructV (fs[stmt_index T := NilV]))] @ hn) x = Inr sv"
  shows "\<exists>h' cl' res.
           Replace rp h d cl pos = Inr (h', cl', res, None) \<and>
           res = Imm (PtrT T) (PtrV (length h) []) \<and>
           Value_Type h' res = Inr (PtrT (Type (captured T a b))) \<and>
           Type_Kind (PtrT T) = reflect_Ptr \<and>
           length h \<noteq> a \<and>
           take (length h) h' = h \<and>
           h' ! a = (T, StructV fs) \<and>
           points_to h' res T (length h) \<and>
           node_at h' (length h) T (fs[stmt_index T := sv])"
proof -
  let ?h' = "h @ [(T, StructV (fs[stmt_index T := sv]))] @ hn"
  have a: "a < length h" and ha: "h ! a = (T, StructV fs)"
    using assms(1) by (simp_all add: node_at_def)
  have "Replace rp h d cl pos =
      Inr (?h', Unchanged cl3 (b + 1) b, Imm (PtrT T) (PtrV (length h) []), None)"
    using assms by (rule Replace_success)
  moreover have "?h' ! a = (T, StructV fs)"
    using a ha by (simp add: nth_append)
  moreover have "node_at ?h' (length h) T (fs[stmt_index T := sv])"
    using assms(1) by (simp add: node_at_def)
  moreover have "length h \<noteq> a"
    using a by simp
  ultimately show ?thesis
    by (intro exI [of _ ?h'] exI [of _ "Unchanged cl3 (b + 1) b"]
        exI [of _ "Imm (PtrT T) (PtrV (length h) [])"])
      (simp add: points_to_def)
qed

theorem Replace_fresh_pointer_witness:
  "node_at [(BlockStmtType, StructV [IntV 5, NilV, IntV 6])] 0 BlockStmtType
     [IntV 5, NilV, IntV 6] \<and>
   Lookup [(stmtListKey, StmtListData (captured BlockStmtType 0 5))] stmtListKey =
     Some (captured BlockStmtType 0 5) \<and>
   (\<exists>h' cl'.
      Replace \<lparr>stmtSliceContainerReplacer.Stmts =
                 (\<lambda>h d cl p. Inr (h, cl, Imm (SliceT StmtT) (SliceV []), None))\<rparr>
        [(BlockStmtType, StructV [IntV 5, NilV, IntV 6])]
        [(stmtListKey, StmtListData (captured BlockStmtType 0 5))] [] 0 =
      Inr (h', cl', Imm (PtrT BlockStmtType) (PtrV 1 []), None) \<and>
      take 1 h' = [(BlockStmtType, StructV [IntV 5, NilV, IntV 6])] \<and>
      node_at h' 1 BlockStmtType [IntV 5, SliceV [], IntV 6])"
proof -
  let ?h = "[(BlockStmtType, StructV [IntV 5, NilV, IntV 6])]"
  let ?N = "(BlockStmtType, StructV ([IntV 5, NilV, IntV 6][stmt_index BlockStmtType := NilV]))"
  let ?d = "[(stmtListKey, StmtListData (captured BlockStmtType 0 5))]"
  let ?ok = "\<lparr>stmtSliceContainerReplacer.Stmts =
    (\<lambda>h d cl p. Inr (h, cl, Imm (SliceT StmtT) (SliceV []), None))\<rparr>"
  have n: "node_at ?h 0 BlockStmtType [IntV 5, NilV, IntV 6]"
    by (simp add: node_at_def is_container_def) (simp add: BlockStmtType_def)
  have l1: "Lookup ?d stmtListKey = Some (captured BlockStmtType 0 5)"
    by (simp add: Lookup_def)
  have s: "stmtSliceContainerReplacer.Stmts ?ok (?h @ [?N]) ?d [] 5 =
      Inr (?h @ [?N] @ [], [], Imm (SliceT StmtT) (SliceV []), None)"
    by simp
  have t: "Value_Type (?h @ [?N] @ []) (Imm (SliceT StmtT) (SliceV [])) = Inr (SliceT StmtT)"
    "Value_read (?h @ [?N] @ []) (Imm (SliceT StmtT) (SliceV [])) = Inr (SliceV [])"
    by simp_all
  from Replace_fresh_pointer [OF n l1 s t, of 0]
  obtain h' cl' where "Replace ?ok ?h ?d [] 0 =
      Inr (h', cl', Imm (PtrT BlockStmtType) (PtrV (length ?h) []), None)"
    "take (length ?h) h' = ?h"
    "node_at h' (length ?h) BlockStmtType
       ([IntV 5, NilV, IntV 6][stmt_index BlockStmtType := SliceV []])"
    by blast
  then have "\<exists>h' cl'. Replace ?ok ?h ?d [] 0 =
        Inr (h', cl', Imm (PtrT BlockStmtType) (PtrV 1 []), None) \<and>
      take 1 h' = ?h \<and> node_at h' 1 BlockStmtType [IntV 5, SliceV [], IntV 6]"
    by (intro exI [of _ h'] exI [of _ cl']) (simp add: stmt_index_def)
  then show ?thesis
    using n l1 by (intro conjI)
qed

section \<open>The unchanged region on a concrete block\<close>

text \<open>
  Claim C1 asks that the unchanged region captured by a successful match, and later
  recorded with the ledger, satisfies \<open>Pos \<le> End\<close>. On the block \<^verbatim>\<open>{}\<close> with its
  brace at position 5, matched with the region starting there, the code captures
  the region from 6 to 5, and the replace that follows records that span,
  \<^verbatim>\<open>Unchanged(6, 5)\<close>, in the ledger: the start is after the end.
\<close>

theorem unchanged_region_starts_after_its_end:
  "Match \<lparr>stmtSliceContainerMatcher.Stmts = (\<lambda>h v d r. Inr (d, True))\<rparr>
     [(BlockStmtType, StructV [IntV 5, NilV, IntV 6])]
     (Imm (PtrT BlockStmtType) (PtrV 0 [])) [] \<lparr>Pos = 5, End = 7\<rparr> =
   Inr ([(stmtListKey,
          StmtListData
            \<lparr>Type = BlockStmtType, StmtFieldIdx = 1,
             OtherFields = [\<lparr>FieldIdx = 0, Value = Loc 0 [0]\<rparr>,
                            \<lparr>FieldIdx = 2, Value = Loc 0 [2]\<rparr>],
             UnchangedRegion = \<lparr>Pos = 6, End = 5\<rparr>\<rparr>)], True) \<and>
   Replace \<lparr>stmtSliceContainerReplacer.Stmts =
              (\<lambda>h d cl p. Inr (h, cl, Imm (SliceT StmtT) NilV, None))\<rparr>
     [(BlockStmtType, StructV [IntV 5, NilV, IntV 6])]
     [(stmtListKey,
       StmtListData
         \<lparr>Type = BlockStmtType, StmtFieldIdx = 1,
          OtherFields = [\<lparr>FieldIdx = 0, Value = Loc 0 [0]\<rparr>,
                         \<lparr>FieldIdx = 2, Value = Loc 0 [2]\<rparr>],
          UnchangedRegion = \<lparr>Pos = 6, End = 5\<rparr>\<rparr>)] [] 0 =
   Inr ([(BlockStmtType, StructV [IntV 5, NilV, IntV 6]),
         (BlockStmtType, StructV [IntV 5, NilV, IntV 6])],
        [(6, 5)], Imm (PtrT BlockStmtType) (PtrV 1 []), None) \<and>
   \<not> sint (6 :: token_Pos) \<le> sint (5 :: token_Pos)"
proof -
  let ?h = "[(BlockStmtType, StructV [IntV 5, NilV, IntV 6])]"
  let ?N = "(BlockStmtType, StructV ([IntV 5, NilV, IntV 6][stmt_index BlockStmtType := NilV]))"
  let ?d = "[(stmtListKey, StmtListData (captured BlockStmtType 0 5))]"
  let ?ok = "\<lparr>stmtSliceContainerReplacer.Stmts =
    (\<lambda>h d cl p. Inr (h, cl, Imm (SliceT StmtT) NilV, None))\<rparr>"
  have 1: "Match \<lparr>stmtSliceContainerMatcher.Stmts = (\<lambda>h v d r. Inr (d, True))\<rparr> ?h
      (Imm (PtrT BlockStmtType) (PtrV 0 [])) [] \<lparr>Pos = 5, End = 7\<rparr> = Inr (?d, True)"
    by (simp add: Match_BlockStmt points_to_def WithValue_def)
  have n: "node_at ?h 0 BlockStmtType [IntV 5, NilV, IntV 6]"
    by (simp add: node_at_def is_container_def) (simp add: BlockStmtType_def)
  have l: "Lookup ?d stmtListKey = Some (captured BlockStmtType 0 5)"
    by (simp add: Lookup_def)
  have s: "stmtSliceContainerReplacer.Stmts ?ok (?h @ [?N]) ?d [] 5 =
      Inr (?h @ [?N] @ [], [], Imm (SliceT StmtT) NilV, None)"
    by simp
  have t: "Value_Type (?h @ [?N] @ []) (Imm (SliceT StmtT) NilV) = Inr (SliceT StmtT)"
    "Value_read (?h @ [?N] @ []) (Imm (SliceT StmtT) NilV) = Inr NilV"
    by simp_all
  have 2: "Replace ?ok ?h ?d [] 0 =
      Inr ([(BlockStmtType, StructV [IntV 5, NilV, IntV 6]),
            (BlockStmtType, StructV [IntV 5, NilV, IntV 6])],
           [(6, 5)], Imm (PtrT BlockStmtType) (PtrV 1 []), None)"
    using Replace_success [OF n l s t, of 0] by (simp add: stmt_index_def Unchanged_def)
  show ?thesis
    using 1 2 by (simp add: captured_Block)
qed

section \<open>The compiled pattern list\<close>

text \<open>
  Claim C4, as amended. \<^verbatim>\<open>compilePGoStmtList\<close>, in the matcher compiler and in the
  replacer compiler, hands \<^verbatim>\<open>c.compile\<close> the empty list when the explicit statement
  list is empty: no wildcard marker is inserted. A list that is not empty is handed
  over between a leading marker at \<^verbatim>\<open>patchStart\<close> and a trailing marker at
  \<^verbatim>\<open>patchEnd\<close>. On a container node, the match of the compiled container matcher
  is the outcome of the matcher compiled from that list, applied to the node's
  statement-list field.
\<close>

theorem compilePGoStmtList_pattern:
  "stmtSliceContainerMatcher.Stmts (matcher_compilePGoStmtList compile c slist) =
     compile (if List slist = [] then []
              else dotsStmt (matcherCompiler.patchStart c) # List slist @
                   [dotsStmt (matcherCompiler.patchEnd c)]) \<and>
   stmtSliceContainerReplacer.Stmts (replacer_compilePGoStmtList compile' c' slist) =
     compile' (if List slist = [] then []
               else dotsStmt (replacerCompiler.patchStart c') # List slist @
                    [dotsStmt (replacerCompiler.patchEnd c')]) \<and>
   (node_at h a T fs \<and> points_to h v T a \<and> prelude_end T fs r = Some b \<longrightarrow>
      Match (matcher_compilePGoStmtList compile c slist) h v d r =
        compile (if List slist = [] then []
                 else dotsStmt (matcherCompiler.patchStart c) # List slist @
                      [dotsStmt (matcherCompiler.patchEnd c)])
          h (Loc a [stmt_index T])
          (WithValue d stmtListKey (StmtListData (captured T a b))) (r\<lparr>Pos := b + 1\<rparr>))"
proof (intro conjI impI)
  show m: "stmtSliceContainerMatcher.Stmts (matcher_compilePGoStmtList compile c slist) =
      compile (if List slist = [] then []
               else dotsStmt (matcherCompiler.patchStart c) # List slist @
                    [dotsStmt (matcherCompiler.patchEnd c)])"
    by (simp add: matcher_compilePGoStmtList_def matcher_list_def)
  show "stmtSliceContainerReplacer.Stmts (replacer_compilePGoStmtList compile' c' slist) =
      compile' (if List slist = [] then []
                else dotsStmt (replacerCompiler.patchStart c') # List slist @
                     [dotsStmt (replacerCompiler.patchEnd c')])"
    by (simp add: replacer_compilePGoStmtList_def replacer_list_def)
  assume "node_at h a T fs \<and> points_to h v T a \<and> prelude_end T fs r = Some b"
  then have "Match (matcher_compilePGoStmtList compile c slist) h v d r =
      stmtSliceContainerMatcher.Stmts (matcher_compilePGoStmtList compile c slist)
        h (Loc a [stmt_index T])
        (WithValue d stmtListKey (StmtListData (captured T a b))) (r\<lparr>Pos := b + 1\<rparr>)"
    by (intro Match_container [where fs = fs]) simp_all
  then show "Match (matcher_compilePGoStmtList compile c slist) h v d r =
      compile (if List slist = [] then []
               else dotsStmt (matcherCompiler.patchStart c) # List slist @
                    [dotsStmt (matcherCompiler.patchEnd c)])
        h (Loc a [stmt_index T])
        (WithValue d stmtListKey (StmtListData (captured T a b))) (r\<lparr>Pos := b + 1\<rparr>)"
    by (simp only: m)
qed

theorem compilePGoStmtList_pattern_witness:
  "node_at [(BlockStmtType, StructV [IntV 5, NilV, IntV 6])] 0 BlockStmtType
     [IntV 5, NilV, IntV 6] \<and>
   points_to [(BlockStmtType, StructV [IntV 5, NilV, IntV 6])]
     (Imm (PtrT BlockStmtType) (PtrV 0 [])) BlockStmtType 0 \<and>
   prelude_end BlockStmtType [IntV 5, NilV, IntV 6] \<lparr>Pos = 5, End = 7\<rparr> = Some 5 \<and>
   Match (matcher_compilePGoStmtList (\<lambda>ps h v d r. Inr (d, ps = []))
            \<lparr>matcherCompiler.patchStart = 1, matcherCompiler.patchEnd = 9\<rparr> \<lparr>List = []\<rparr>)
     [(BlockStmtType, StructV [IntV 5, NilV, IntV 6])]
     (Imm (PtrT BlockStmtType) (PtrV 0 [])) [] \<lparr>Pos = 5, End = 7\<rparr> =
   Inr ([(stmtListKey, StmtListData (captured BlockStmtType 0 5))], True) \<and>
   Match (matcher_compilePGoStmtList
            (\<lambda>ps h v d r. Inr (d, ps = [dotsStmt 1, OtherStmt ''a()'', dotsStmt 9]))
            \<lparr>matcherCompiler.patchStart = 1, matcherCompiler.patchEnd = 9\<rparr>
            \<lparr>List = [OtherStmt ''a()'']\<rparr>)
     [(BlockStmtType, StructV [IntV 5, NilV, IntV 6])]
     (Imm (PtrT BlockStmtType) (PtrV 0 [])) [] \<lparr>Pos = 5, End = 7\<rparr> =
   Inr ([(stmtListKey, StmtListData (captured BlockStmtType 0 5))], True)"
proof -
  let ?h = "[(BlockStmtType, StructV [IntV 5, NilV, IntV 6])]"
  let ?c = "\<lparr>matcherCompiler.patchStart = 1, matcherCompiler.patchEnd = 9\<rparr>"
  have n: "node_at ?h 0 BlockStmtType [IntV 5, NilV, IntV 6]"
    by (simp add: node_at_def is_container_def) (simp add: BlockStmtType_def)
  have p: "points_to ?h (Imm (PtrT BlockStmtType) (PtrV 0 [])) BlockStmtType 0"
    by (simp add: points_to_def)
  have b: "prelude_end BlockStmtType [IntV 5, NilV, IntV 6] \<lparr>Pos = 5, End = 7\<rparr> = Some 5"
    by (simp add: prelude_end_def)
  have 1: "Match (matcher_compilePGoStmtList (\<lambda>ps h v d r. Inr (d, ps = [])) ?c \<lparr>List = []\<rparr>)
      ?h (Imm (PtrT BlockStmtType) (PtrV 0 [])) [] \<lparr>Pos = 5, End = 7\<rparr> =
    Inr ([(stmtListKey, StmtListData (captured BlockStmtType 0 5))], True)"
    using compilePGoStmtList_pattern
      [where compile = "\<lambda>ps h v d r. Inr (d, ps = [])" and c = ?c and slist = "\<lparr>List = []\<rparr>"
         and d = "[]",
       THEN conjunct2, THEN conjunct2, THEN mp, OF conjI [OF n conjI [OF p b]]]
    by (simp add: WithValue_def)
  have 2: "Match (matcher_compilePGoStmtList
        (\<lambda>ps h v d r. Inr (d, ps = [dotsStmt 1, OtherStmt ''a()'', dotsStmt 9])) ?c
        \<lparr>List = [OtherStmt ''a()'']\<rparr>)
      ?h (Imm (PtrT BlockStmtType) (PtrV 0 [])) [] \<lparr>Pos = 5, End = 7\<rparr> =
    Inr ([(stmtListKey, StmtListData (captured BlockStmtType 0 5))], True)"
    using compilePGoStmtList_pattern
      [where compile = "\<lambda>ps h v d r. Inr (d, ps = [dotsStmt 1, OtherStmt ''a()'', dotsStmt 9])"
         and c = ?c and slist = "\<lparr>List = [OtherStmt ''a()'']\<rparr>" and d = "[]",
       THEN conjunct2, THEN conjunct2, THEN mp, OF conjI [OF n conjI [OF p b]]]
    by (simp add: WithValue_def)
  show ?thesis
    using n p b 1 2 by (intro conjI)
qed

text \<open>
  As the claim states it, C4 fails: for an empty explicit list, neither marker is in
  the list that is compiled.
\<close>

theorem empty_pattern_gets_no_wildcards:
  "matcher_list \<lparr>matcherCompiler.patchStart = 1, matcherCompiler.patchEnd = 9\<rparr>
     \<lparr>List = []\<rparr> = [] \<and>
   dotsStmt 1 \<notin> set (matcher_list
     \<lparr>matcherCompiler.patchStart = 1, matcherCompiler.patchEnd = 9\<rparr> \<lparr>List = []\<rparr>) \<and>
   dotsStmt 9 \<notin> set (matcher_list
     \<lparr>matcherCompiler.patchStart = 1, matcherCompiler.patchEnd = 9\<rparr> \<lparr>List = []\<rparr>) \<and>
   replacer_list \<lparr>replacerCompiler.patchStart = 1, replacerCompiler.patchEnd = 9\<rparr>
     \<lparr>List = []\<rparr> = []"
  by (simp add: matcher_list_def replacer_list_def)

end
